theory Spec2Isabelle
  imports Main "HOL-Library.Sublist"
begin

section \<open>Errors and the observable world\<close>

text \<open>
  A Go \<open>error\<close> value is modelled by \<open>error option\<close>: \<open>None\<close> is \<open>nil\<close>.
  \<open>StatusError\<close> is what \<open>status.Errorf(code, format, ...)\<close> builds (a gRPC code and the
  formatted message); \<open>PlainError\<close> stands for every other error value, by its message.
\<close>

datatype code = OK | Canceled | Unknown | InvalidArgument | NotFound | FailedPrecondition | Internal

datatype error = StatusError code string | PlainError string

text \<open>
  The calls \<open>app.go\<close> makes to its collaborators are recorded, in program order, in a
  trace: the invocation of a shutdown handle (a member of \<open>App.closers\<close>, identified by
  the plugin instance it was made for), \<open>a.UI.Status()\<close> and \<open>Status.Close()\<close>.
\<close>

datatype event = Invoked nat | StatusOpened | StatusClosed

text \<open>
  A \<open>*argmapper.Func\<close> is a pointer: \<open>None\<close> is \<open>nil\<close>, \<open>Some n\<close> the function at
  address \<open>n\<close>. A \<open>[]*argmapper.Func\<close> is a Go slice: a window (start offset, length,
  capacity) onto a backing array, which lives in the store \<open>arrays\<close> of the world, so
  that two slices may share an array.
\<close>

type_synonym FuncPtr = "nat option"

record slice =
  base :: nat
  off :: nat
  len :: nat
  cap :: nat

text \<open>
  The world: the state of everything outside the App (plugin processes, the functions
  called), of a type \<open>'x\<close> the model does not look into; the trace; and the store of
  backing arrays (the address of an array is its index).
\<close>

record 'x world =
  outer :: 'x
  trace :: "event list"
  arrays :: "FuncPtr list list"

section \<open>Shutdown handles and \<open>App.Close\<close>\<close>

text \<open>
  A member of \<open>closers\<close> is a \<open>func() error\<close>: it acts on the outside world and returns
  an error or \<open>nil\<close>. \<open>handle_id\<close> is its identity (function values have one in Go,
  though no \<open>==\<close>), used only to record which handle was invoked. Handles are taken to
  return: a handle that panics or never returns is outside this model.
\<close>

record 'x closer =
  handle_id :: nat
  handle_run :: "'x \<Rightarrow> error option \<times> 'x"

definition invoke :: "'x closer \<Rightarrow> 'x world \<Rightarrow> error option \<times> 'x world" where
  "invoke c w =
     (let (r, x') = handle_run c (outer w)
      in (r, w\<lparr>outer := x', trace := trace w @ [Invoked (handle_id c)]\<rparr>))"

text \<open>
  The loop of \<open>Close\<close>: \<open>for _, c := range a.closers { c() }\<close>. The result of \<open>c()\<close> is
  not bound to anything.
\<close>

fun run_closers :: "'x closer list \<Rightarrow> 'x world \<Rightarrow> 'x world" where
  "run_closers [] w = w"
| "run_closers (c # cs) w = run_closers cs (snd (invoke c w))"

section \<open>The data model of \<open>app.go\<close>\<close>

text \<open>
  \<open>component.Type\<close>, \<open>component.Source\<close>, \<open>pb.Ref_Application\<close>, \<open>config.App\<close>,
  \<open>factory.Factory\<close> and \<open>Project\<close> are declared outside \<open>app.go\<close>; each record has the
  fields \<open>app.go\<close> reads or writes. Opaque handles (the server client, the job
  information, the UI, a context) are numbers. A logger is the list of its names:
  \<open>Named\<close> appends one.
\<close>

datatype component_type = BuilderType | RegistryType | PlatformType | ReleaseManagerType | MapperType

record Source =
  Source_App :: string
  Source_Path :: string

record Ref_Application =
  Application :: string
  Project :: string

record config_App =
  cfg_Name :: string
  cfg_Path :: string
  cfg_Labels :: "string \<rightharpoonup> string"

record Factory =
  Registered :: "string list"

text \<open>
  \<open>p_dir\<close> is \<open>p.dir.App\<close>: the app's data directory for a name, or an error.
  \<open>p_factories\<close> is the map \<open>p.factories\<close>. \<open>p_labels\<close> is not read by \<open>app.go\<close>: it
  holds the project-wide default labels of the spec, for \<open>Project.mergeLabels\<close> below.
\<close>

record Project =
  p_client :: nat
  p_jobInfo :: nat
  p_logger :: "string list"
  p_name :: string
  p_workspace :: string
  p_mappers :: slice
  p_UI :: nat
  p_root :: string
  p_dir :: "string \<Rightarrow> error + string"
  p_factories :: "component_type \<rightharpoonup> Factory"
  p_labels :: "string \<rightharpoonup> string"

text \<open>
  The struct \<open>App\<close>. The pointer \<open>project\<close> is the project's record: \<open>app.go\<close> reads
  the project and assigns none of its fields. \<open>mappers\<close> is a slice in the store.
  \<open>closers\<close> is kept as the list of its handles: \<open>app.go\<close> appends to it and ranges
  over it, and nothing shares its backing array. \<open>dir\<close> is \<open>nil\<close> until \<open>newApp\<close> sets it.
\<close>

record 'x App =
  UI :: nat
  project :: Project
  config :: config_App
  ref :: Ref_Application
  workspace :: string
  client :: nat
  source :: Source
  jobInfo :: nat
  logger :: "string list"
  dir :: "string option"
  mappers :: slice
  closers :: "'x closer list"

text \<open>
  \<open>Close\<close> has a pointer receiver but assigns no field of the App: the App is read,
  and only the world changes. The first component is the returned \<open>error\<close>.
\<close>

definition Close :: "'x App \<Rightarrow> 'x world \<Rightarrow> error option \<times> 'x world" where
  "Close a w = (None, run_closers (closers a) w)"

text \<open>\<open>Ref\<close> returns the application reference.\<close>

definition Ref :: "'x App \<Rightarrow> Ref_Application" where
  "Ref a = ref a"

section \<open>Slices of converters\<close>

text \<open>
  The elements a slice shows: \<open>len\<close> elements of its backing array, from \<open>off\<close> on.
\<close>

definition slice_content :: "FuncPtr list list \<Rightarrow> slice \<Rightarrow> FuncPtr list" where
  "slice_content arrs s =
     (if base s < length arrs then take (len s) (drop (off s) (arrs ! base s)) else [])"

text \<open>
  A slice is well formed in a store when its array is there and holds its window.
\<close>

definition wf_slice :: "FuncPtr list list \<Rightarrow> slice \<Rightarrow> bool" where
  "wf_slice arrs s \<longleftrightarrow>
     base s < length arrs \<and> off s + cap s \<le> length (arrs ! base s) \<and> len s \<le> cap s"

definition alloc :: "FuncPtr list \<Rightarrow> 'x world \<Rightarrow> nat \<times> 'x world" where
  "alloc arr w = (length (arrays w), w\<lparr>arrays := arrays w @ [arr]\<rparr>)"

text \<open>The composite literal \<open>[]*argmapper.Func{}\<close>: a new, empty slice.\<close>

definition slice_literal :: "'x world \<Rightarrow> slice \<times> 'x world" where
  "slice_literal w =
     (let (b, w') = alloc [] w in (\<lparr>base = b, off = 0, len = 0, cap = 0\<rparr>, w'))"

definition write_at :: "'a list \<Rightarrow> nat \<Rightarrow> 'a list \<Rightarrow> 'a list" where
  "write_at arr i xs = take i arr @ xs @ drop (i + length xs) arr"

text \<open>
  Go's \<open>append(s, xs...)\<close>. When the capacity suffices the new elements are written into
  the backing array of \<open>s\<close>, after its last element, and the result shares that array.
  Otherwise a new array is allocated, the elements of \<open>s\<close> are copied to it and the new
  ones follow. The capacity of a new array is the runtime's choice: \<open>grow\<close> is that
  choice (from the old capacity and the length needed), never less than the length
  needed. The rest of a new array is \<open>nil\<close>.
\<close>

definition append_slice ::
  "(nat \<Rightarrow> nat \<Rightarrow> nat) \<Rightarrow> slice \<Rightarrow> FuncPtr list \<Rightarrow> 'x world \<Rightarrow> slice \<times> 'x world" where
  "append_slice grow s xs w =
     (let n = len s + length xs in
      if n \<le> cap s then
        (s\<lparr>len := n\<rparr>,
         w\<lparr>arrays := (arrays w)[base s := write_at (arrays w ! base s) (off s + len s) xs]\<rparr>)
      else
        (let newcap = max n (grow (cap s) n);
             (b, w') = alloc (slice_content (arrays w) s @ xs @ replicate (newcap - n) None) w
         in (\<lparr>base = b, off = 0, len = n, cap = newcap\<rparr>, w')))"

section \<open>\<open>path/filepath\<close> on Unix\<close>

text \<open>
  \<open>filepath.Join\<close> and \<open>filepath.Clean\<close> belong to Go's standard library. They are
  modelled for the separator \<open>/\<close>, element by element: \<open>Clean\<close> drops empty and \<open>.\<close>
  elements, lets \<open>..\<close> remove the element before it, drops a \<open>..\<close> that would climb
  above the root of a rooted path, and keeps it at the front of a path that is not
  rooted; the empty result is \<open>.\<close>.
\<close>

fun split_sep :: "string \<Rightarrow> string list" where
  "split_sep [] = [[]]"
| "split_sep (c # cs) =
     (if c = CHR ''/'' then [] # split_sep cs
      else (c # hd (split_sep cs)) # tl (split_sep cs))"

fun join_sep :: "string list \<Rightarrow> string" where
  "join_sep [] = []"
| "join_sep [e] = e"
| "join_sep (e # es) = e @ ''/'' @ join_sep es"

fun clean_elems :: "bool \<Rightarrow> string list \<Rightarrow> string list \<Rightarrow> string list" where
  "clean_elems rooted out [] = out"
| "clean_elems rooted out (e # es) =
     (if e = [] \<or> e = ''.'' then clean_elems rooted out es
      else if e = ''..'' then
        (if out \<noteq> [] \<and> last out \<noteq> ''..'' then clean_elems rooted (butlast out) es
         else if \<not> rooted then clean_elems rooted (out @ [''..'']) es
         else clean_elems rooted out es)
      else clean_elems rooted (out @ [e]) es)"

definition Clean :: "string \<Rightarrow> string" where
  "Clean path =
     (if path = [] then ''.''
      else
        (let rooted = (hd path = CHR ''/'');
             out = clean_elems rooted [] (split_sep path)
         in if rooted then CHR ''/'' # join_sep out
            else if out = [] then ''.''
            else join_sep out))"

text \<open>
  \<open>Join\<close> skips the leading empty elements, joins the rest with the separator and
  cleans the result; with no element that is not empty the result is empty.
\<close>

fun Join :: "string list \<Rightarrow> string" where
  "Join [] = []"
| "Join (e # es) = (if e = [] then Join es else Clean (join_sep (e # es)))"

definition IsAbs :: "string \<Rightarrow> bool" where
  "IsAbs path \<longleftrightarrow> path \<noteq> [] \<and> hd path = CHR ''/''"

text \<open>
  An element that \<open>Clean\<close> keeps as it is: not empty, not \<open>.\<close>, not \<open>..\<close>, and
  without a separator.
\<close>

definition real_elem :: "string \<Rightarrow> bool" where
  "real_elem e \<longleftrightarrow> e \<noteq> [] \<and> e \<noteq> ''.'' \<and> e \<noteq> ''..'' \<and> CHR ''/'' \<notin> set e"

section \<open>Plugins and \<open>newApp\<close>\<close>

text \<open>
  What \<open>a.startPlugin\<close> returns on success, a \<open>*plugin.Instance\<close>: the converters the
  plugin exports and its \<open>Close\<close>, which acts on the outside world. \<open>inst_id\<close>
  identifies the instance.
\<close>

record 'x Instance =
  inst_id :: nat
  Mappers :: "FuncPtr list"
  inst_Close :: "'x \<Rightarrow> 'x"

text \<open>
  The function literal of \<open>initMappers\<close>:
  \<open>func() error { pinst.Close(); return nil }\<close>.
\<close>

definition closer_of :: "'x Instance \<Rightarrow> 'x closer" where
  "closer_of pinst =
     \<lparr>handle_id = inst_id pinst, handle_run = (\<lambda>x. (None, inst_Close pinst x))\<rparr>"

text \<open>
  \<open>App.startPlugin\<close> is not in \<open>app.go\<close>: it is a parameter \<open>sp\<close> of the model, a function
  of the App, the component type, the factory, the plugin's name and the outside world,
  which returns an error or an instance, and the new outside world.

  One iteration of the loop of \<open>initMappers\<close>: start the plugin; on an error stop; else
  append its converters to \<open>a.mappers\<close> and its shutdown handle to \<open>a.closers\<close>.
\<close>

type_synonym 'x startPlugin =
  "'x App \<Rightarrow> component_type \<Rightarrow> Factory \<Rightarrow> string \<Rightarrow> 'x \<Rightarrow> (error + 'x Instance) \<times> 'x"

definition load_mapper ::
  "(nat \<Rightarrow> nat \<Rightarrow> nat) \<Rightarrow> 'x startPlugin \<Rightarrow> Factory \<Rightarrow> string \<Rightarrow> 'x App \<Rightarrow> 'x world
     \<Rightarrow> (error + 'x Instance \<times> 'x App) \<times> 'x world" where
  "load_mapper grow sp f name a w =
     (case sp a MapperType f name (outer w) of
        (Inl err, x') \<Rightarrow> (Inl err, w\<lparr>outer := x'\<rparr>)
      | (Inr pinst, x') \<Rightarrow>
          (let (ms, w') = append_slice grow (mappers a) (Mappers pinst) (w\<lparr>outer := x'\<rparr>);
               a1 = a\<lparr>mappers := ms\<rparr>;
               a2 = a1\<lparr>closers := closers a1 @ [closer_of pinst]\<rparr>
           in (Inr (pinst, a2), w')))"

fun initMappers_loop ::
  "(nat \<Rightarrow> nat \<Rightarrow> nat) \<Rightarrow> 'x startPlugin \<Rightarrow> Factory \<Rightarrow> string list \<Rightarrow> 'x App \<Rightarrow> 'x world
     \<Rightarrow> error option \<times> 'x App \<times> 'x world" where
  "initMappers_loop grow sp f [] a w = (None, a, w)"
| "initMappers_loop grow sp f (name # names) a w =
     (case load_mapper grow sp f name a w of
        (Inl err, w') \<Rightarrow> (Some err, a, w')
      | (Inr (pinst, a'), w') \<Rightarrow> initMappers_loop grow sp f names a' w')"

text \<open>
  \<open>initMappers\<close> returns its error, the App as the loop left it, and the world.
\<close>

definition initMappers ::
  "(nat \<Rightarrow> nat \<Rightarrow> nat) \<Rightarrow> 'x startPlugin \<Rightarrow> 'x App \<Rightarrow> Factory \<Rightarrow> 'x world
     \<Rightarrow> error option \<times> 'x App \<times> 'x world" where
  "initMappers grow sp a f w = initMappers_loop grow sp f (Registered f) a w"

text \<open>
  Line 85, \<open>append([]*argmapper.Func{}, p.mappers...)\<close>: the elements of the project's
  chain appended to a new, empty slice.
\<close>

definition copy_mappers ::
  "(nat \<Rightarrow> nat \<Rightarrow> nat) \<Rightarrow> slice \<Rightarrow> 'x world \<Rightarrow> slice \<times> 'x world" where
  "copy_mappers grow s w =
     (let (lit, w1) = slice_literal w
      in append_slice grow lit (slice_content (arrays w1) s) w1)"

text \<open>
  The first part of \<open>newApp\<close>, lines 70 to 98: the App literal, and the path of the
  source.
\<close>

definition newApp_init ::
  "(nat \<Rightarrow> nat \<Rightarrow> nat) \<Rightarrow> Project \<Rightarrow> config_App \<Rightarrow> 'x world \<Rightarrow> 'x App \<times> 'x world" where
  "newApp_init grow p cfg w =
     (let (ms, w') = copy_mappers grow (p_mappers p) w;
          app = \<lparr>UI = p_UI p,
                 project = p,
                 config = cfg,
                 ref = \<lparr>Application = cfg_Name cfg, Project = p_name p\<rparr>,
                 workspace = p_workspace p,
                 client = p_client p,
                 source = \<lparr>Source_App = cfg_Name cfg, Source_Path = ''.''\<rparr>,
                 jobInfo = p_jobInfo p,
                 logger = p_logger p @ [''app'', cfg_Name cfg],
                 dir = None,
                 mappers = ms,
                 closers = []\<rparr>;
          path = (if cfg_Path cfg \<noteq> [] then Join [p_root p, cfg_Path cfg] else p_root p)
      in (app\<lparr>source := (source app)\<lparr>Source_Path := path\<rparr>\<rparr>, w'))"

text \<open>
  \<open>newApp\<close>: after the first part, the data directory, then the mapper plugins when the
  project has a factory for \<open>component.MapperType\<close>. \<open>Inl err\<close> is the return
  \<open>nil, err\<close>, \<open>Inr app\<close> the return \<open>app, nil\<close>.
\<close>

definition newApp ::
  "(nat \<Rightarrow> nat \<Rightarrow> nat) \<Rightarrow> 'x startPlugin \<Rightarrow> Project \<Rightarrow> config_App \<Rightarrow> 'x world
     \<Rightarrow> (error + 'x App) \<times> 'x world" where
  "newApp grow sp p cfg w =
     (let (app, w') = newApp_init grow p cfg w
      in case p_dir p (cfg_Name cfg) of
           Inl err \<Rightarrow> (Inl err, w')
         | Inr d \<Rightarrow>
             (case p_factories p MapperType of
                None \<Rightarrow> (Inr (app\<lparr>dir := Some d\<rparr>), w')
              | Some f \<Rightarrow>
                  (case initMappers grow sp (app\<lparr>dir := Some d\<rparr>) f w' of
                     (Some err, a', w'') \<Rightarrow> (Inl err, w'')
                   | (None, a', w'') \<Rightarrow> (Inr a', w''))))"

text \<open>The App a call of \<open>newApp\<close> returned, if it returned one.\<close>

definition app_of :: "(error + 'x App) \<times> 'x world \<Rightarrow> 'x App option" where
  "app_of r = (case fst r of Inl err \<Rightarrow> None | Inr app \<Rightarrow> Some app)"

text \<open>
  The converters the plugins of a list of names export, in order, up to the first
  plugin that fails to start: what the loop of \<open>initMappers\<close> is expected to append.
\<close>

fun exported ::
  "(nat \<Rightarrow> nat \<Rightarrow> nat) \<Rightarrow> 'x startPlugin \<Rightarrow> Factory \<Rightarrow> string list \<Rightarrow> 'x App \<Rightarrow> 'x world
     \<Rightarrow> FuncPtr list" where
  "exported grow sp f [] a w = []"
| "exported grow sp f (name # names) a w =
     (case load_mapper grow sp f name a w of
        (Inl err, w') \<Rightarrow> []
      | (Inr (pinst, a'), w') \<Rightarrow> Mappers pinst @ exported grow sp f names a' w')"

text \<open>
  The converters the mapper plugins of a project export to an App under construction:
  none without a factory for \<open>component.MapperType\<close>, else those of the registered
  names, as \<open>newApp\<close> would start them.
\<close>

definition loaded_converters ::
  "(nat \<Rightarrow> nat \<Rightarrow> nat) \<Rightarrow> 'x startPlugin \<Rightarrow> Project \<Rightarrow> config_App \<Rightarrow> 'x world
     \<Rightarrow> FuncPtr list" where
  "loaded_converters grow sp p cfg w =
     (let (app, w') = newApp_init grow p cfg w
      in case p_dir p (cfg_Name cfg) of
           Inl err \<Rightarrow> []
         | Inr d \<Rightarrow>
             (case p_factories p MapperType of
                None \<Rightarrow> []
              | Some f \<Rightarrow> exported grow sp f (Registered f) (app\<lparr>dir := Some d\<rparr>) w'))"

section \<open>Label merging\<close>

text \<open>
  Modelled from the spec: \<open>Project.mergeLabels\<close> is not in \<open>app.go\<close>. The spec has the
  sets merged left to right, a later set overwriting the keys of the earlier ones, and
  the project-wide defaults below the App's own labels.
\<close>

definition Project_mergeLabels :: "Project \<Rightarrow> (string \<rightharpoonup> string) list \<Rightarrow> (string \<rightharpoonup> string)" where
  "Project_mergeLabels p ls = foldl (++) (p_labels p) ls"

text \<open>
  \<open>App.mergeLabels\<close>: \<open>ls = append([]map[string]string{a.config.Labels}, ls...)\<close>, then
  the project's merge.
\<close>

definition mergeLabels :: "'x App \<Rightarrow> (string \<rightharpoonup> string) list \<Rightarrow> (string \<rightharpoonup> string)" where
  "mergeLabels a ls = Project_mergeLabels (project a) (cfg_Labels (config a) # ls)"

section \<open>Values, types and \<open>callDynamicFunc\<close>\<close>

text \<open>
  An \<open>interface{}\<close> value is \<open>nil\<close> or a value with its dynamic type. Of a type, the model
  keeps what \<open>reflect\<close> is asked for: its name (\<open>String()\<close>), its kind, its method set
  (for an interface type, the methods it requires) and, for the kinds that have one, its
  element type.
\<close>

datatype kind = Array | Chan | Func | Interface | Map | Pointer | Slice | Struct | Basic

datatype go_type =
  GoType (type_String: string) (type_Kind: kind) (type_Methods: "string list")
    (type_Elem: "go_type option")

datatype go_value = Nil | Val go_type nat

text \<open>A call returns or panics.\<close>

datatype 'a outcome = Returned 'a | Panic string

definition TypeOf :: "go_value \<Rightarrow> go_type option" where
  "TypeOf v = (case v of Nil \<Rightarrow> None | Val t _ \<Rightarrow> Some t)"

text \<open>
  \<open>reflect.Type.Elem\<close> panics unless the kind is Array, Chan, Map, Pointer or Slice.
  \<open>reflect.Type.Implements(u)\<close> panics unless \<open>u\<close> is an interface type; a type
  implements an interface when its method set holds every method of the interface.
\<close>

definition Elem :: "go_type \<Rightarrow> go_type outcome" where
  "Elem t =
     (if type_Kind t \<in> {Array, Chan, Map, Pointer, Slice} then
        (case type_Elem t of
           Some e \<Rightarrow> Returned e
         | None \<Rightarrow> Panic ''reflect: Elem of invalid type'')
      else Panic ''reflect: Elem of invalid type'')"

definition implements :: "go_type \<Rightarrow> go_type \<Rightarrow> bool" where
  "implements t u \<longleftrightarrow> set (type_Methods u) \<subseteq> set (type_Methods t)"

definition Implements :: "go_type \<Rightarrow> go_type \<Rightarrow> bool outcome" where
  "Implements t u =
     (if type_Kind u \<noteq> Interface then
        Panic ''reflect: non-interface type passed to Type.Implements''
      else Returned (implements t u))"

text \<open>
  \<open>*Component\<close> is declared outside \<open>app.go\<close>, which reads its field \<open>labels\<close>.
  An \<open>argmapper.Arg\<close> is one of the arguments \<open>callDynamicFunc\<close> builds, or an argument
  of the caller's (\<open>Extra\<close>).
\<close>

record Component =
  labels :: "string \<rightharpoonup> string"

record LabelSet =
  Labels :: "string \<rightharpoonup> string"

datatype arg =
  ConverterFunc "FuncPtr list"
| Typed nat "string list" Source nat "string option" nat
| Named string LabelSet
| Extra nat

text \<open>
  \<open>rawFunc.Call(args...)\<close> acts on the outside world; its result has an error
  (\<open>callResult.Err()\<close>) or the value \<open>callResult.Out(0)\<close>. The argument \<open>f\<close> of
  \<open>callDynamicFunc\<close> is a \<open>*argmapper.Func\<close> or any other value, which
  \<open>argmapper.NewFunc\<close> (a parameter of the model) makes a function of, or rejects.
\<close>

datatype call_result = CallErr error | CallOut go_value

type_synonym 'x Func = "arg list \<Rightarrow> 'x \<Rightarrow> call_result \<times> 'x"

datatype ('x, 'f) func_value = IsFunc "'x Func" | Plain 'f

text \<open>
  The verification of the result type, lines 254 to 263. \<open>reflect.TypeOf\<close> of a \<open>nil\<close>
  value is the \<open>nil\<close> type, and a method call on it panics.
\<close>

definition verify :: "go_value \<Rightarrow> go_value \<Rightarrow> (error + go_value) outcome" where
  "verify result raw =
     (case TypeOf result of
        None \<Rightarrow> Panic ''invalid memory address or nil pointer dereference''
      | Some resultType \<Rightarrow>
          (case Elem resultType of
             Panic m \<Rightarrow> Panic m
           | Returned interfaceType \<Rightarrow>
               (case TypeOf raw of
                  None \<Rightarrow> Panic ''invalid memory address or nil pointer dereference''
                | Some rawType \<Rightarrow>
                    (case Implements rawType interfaceType of
                       Panic m \<Rightarrow> Panic m
                     | Returned ok \<Rightarrow>
                         if \<not> ok then
                           Returned (Inl (StatusError FailedPrecondition
                             (''operation expected result type '' @ type_String interfaceType
                                @ '', got '' @ type_String rawType)))
                         else Returned (Inr raw)))))"

text \<open>
  Lines 213 to 220: a \<open>*argmapper.Func\<close> is used as it is, any other value goes through
  \<open>argmapper.NewFunc\<close>.
\<close>

definition normalize ::
  "('f \<Rightarrow> string list \<Rightarrow> error + 'x Func) \<Rightarrow> string list \<Rightarrow> ('x, 'f) func_value
     \<Rightarrow> error + 'x Func" where
  "normalize NewFunc log f =
     (case f of IsFunc rawFunc \<Rightarrow> Inr rawFunc | Plain v \<Rightarrow> NewFunc v log)"

text \<open>
  Lines 227 to 239: the caller's arguments, then the converters of the App, the typed
  values and the labels of the component.
\<close>

definition build_args ::
  "'x App \<Rightarrow> nat \<Rightarrow> string list \<Rightarrow> Component \<Rightarrow> arg list \<Rightarrow> FuncPtr list list \<Rightarrow> arg list" where
  "build_args a ctx log component args arrs =
     args @
     [ConverterFunc (slice_content arrs (mappers a)),
      Typed ctx log (source a) (jobInfo a) (dir a) (UI a),
      Named ''labels'' \<lparr>Labels = labels component\<rparr>]"

text \<open>
  The part of \<open>callDynamicFunc\<close> after the \<open>defer\<close> statement: the arguments (the
  \<open>labels\<close> argument reads \<open>c.labels\<close>, which panics on a \<open>nil\<close> component), the call,
  and the check of the result. \<open>Inl err\<close> is the return \<open>nil, err\<close>, \<open>Inr raw\<close> the
  return \<open>raw, nil\<close>.
\<close>

definition callDynamicFunc_call ::
  "'x App \<Rightarrow> nat \<Rightarrow> string list \<Rightarrow> go_value \<Rightarrow> Component option \<Rightarrow> 'x Func \<Rightarrow> arg list
     \<Rightarrow> 'x world \<Rightarrow> (error + go_value) outcome \<times> 'x world" where
  "callDynamicFunc_call a ctx log result c rawFunc args w =
     (case c of
        None \<Rightarrow> (Panic ''invalid memory address or nil pointer dereference'', w)
      | Some component \<Rightarrow>
          (let (callResult, x') = rawFunc (build_args a ctx log component args (arrays w)) (outer w);
               w' = w\<lparr>outer := x'\<rparr>
           in case callResult of
                CallErr err \<Rightarrow> (Returned (Inl err), w')
              | CallOut raw \<Rightarrow>
                  if result = Nil then (Returned (Inr raw), w')
                  else (verify result raw, w')))"

text \<open>
  \<open>callDynamicFunc\<close>: the function is made a \<open>*argmapper.Func\<close> (on an error of
  \<open>NewFunc\<close> the call returns it at once); then \<open>defer a.UI.Status().Close()\<close> opens the
  status, and its \<open>Close\<close> runs when the rest has returned or panicked.
\<close>

definition callDynamicFunc ::
  "('f \<Rightarrow> string list \<Rightarrow> error + 'x Func) \<Rightarrow> 'x App \<Rightarrow> nat \<Rightarrow> string list \<Rightarrow> go_value
     \<Rightarrow> Component option \<Rightarrow> ('x, 'f) func_value \<Rightarrow> arg list \<Rightarrow> 'x world
     \<Rightarrow> (error + go_value) outcome \<times> 'x world" where
  "callDynamicFunc NewFunc a ctx log result c f args w =
     (case normalize NewFunc log f of
        Inl err \<Rightarrow> (Returned (Inl err), w)
      | Inr rawFunc \<Rightarrow>
          (let w1 = w\<lparr>trace := trace w @ [StatusOpened]\<rparr>;
               (res, w2) = callDynamicFunc_call a ctx log result c rawFunc args w1
           in (res, w2\<lparr>trace := trace w2 @ [StatusClosed]\<rparr>)))"

section \<open>Example inputs\<close>

text \<open>
  The outside world of the examples is the list of the plugin instances that run: a
  plugin that starts is added, and the \<open>Close\<close> of an instance removes it.
\<close>

definition demo_instance :: "nat \<Rightarrow> FuncPtr list \<Rightarrow> (nat list) Instance" where
  "demo_instance i ms = \<lparr>inst_id = i, Mappers = ms, inst_Close = removeAll i\<rparr>"

text \<open>
  A plugin loader that starts \<open>first\<close> (instance 1, one converter) and \<open>second\<close>
  (instance 2, two converters), and fails on every other name.
\<close>

definition demo_startPlugin :: "(nat list) startPlugin" where
  "demo_startPlugin a t f name x =
     (if name = ''first'' then (Inr (demo_instance 1 [Some 10]), 1 # x)
      else if name = ''second'' then (Inr (demo_instance 2 [Some 20, Some 21]), 2 # x)
      else (Inl (PlainError ''plugin failed to start''), x))"

definition demo_grow :: "nat \<Rightarrow> nat \<Rightarrow> nat" where
  "demo_grow oldcap n = 2 * oldcap"

text \<open>
  A world with one backing array, of capacity three, and a project whose chain is the
  first two elements of it: an \<open>append\<close> to that slice itself would write into the
  project's array.
\<close>

definition demo_world :: "(nat list) world" where
  "demo_world = \<lparr>outer = [], trace = [], arrays = [[Some 1, Some 2, None]]\<rparr>"

definition demo_project :: "string list \<Rightarrow> string \<Rightarrow> Project" where
  "demo_project names root =
     \<lparr>p_client = 0, p_jobInfo = 0, p_logger = [''waypoint''], p_name = ''proj'',
      p_workspace = ''default'', p_mappers = \<lparr>base = 0, off = 0, len = 2, cap = 3\<rparr>,
      p_UI = 0, p_root = root, p_dir = (\<lambda>name. Inr (''/data/'' @ name)),
      p_factories = [MapperType \<mapsto> \<lparr>Registered = names\<rparr>],
      p_labels = Map.empty\<rparr>"

text \<open>The same project, with a data directory that cannot be set up.\<close>

definition demo_project_no_dir :: Project where
  "demo_project_no_dir =
     (demo_project [''first''] ''/srv/proj'')\<lparr>p_dir := (\<lambda>name. Inl (PlainError ''mkdir failed''))\<rparr>"

definition demo_config :: "string \<Rightarrow> config_App" where
  "demo_config path =
     \<lparr>cfg_Name = ''web'', cfg_Path = path,
      cfg_Labels = [''env'' \<mapsto> ''staging'', ''team'' \<mapsto> ''infra'']\<rparr>"

text \<open>
  An App with the shutdown handles given, each returning an error.
\<close>

definition demo_handle :: "nat \<Rightarrow> (nat list) closer" where
  "demo_handle i =
     \<lparr>handle_id = i, handle_run = (\<lambda>x. (Some (PlainError ''close failed''), removeAll i x))\<rparr>"

definition demo_app :: "(nat list) closer list \<Rightarrow> (nat list) App" where
  "demo_app cs =
     \<lparr>UI = 0, project = demo_project [] ''/srv/proj'', config = demo_config [],
      ref = \<lparr>Application = ''web'', Project = ''proj''\<rparr>, workspace = ''default'',
      client = 0, source = \<lparr>Source_App = ''web'', Source_Path = ''/srv/proj''\<rparr>,
      jobInfo = 0, logger = [''waypoint'', ''app'', ''web''], dir = Some ''/data/web'',
      mappers = \<lparr>base = 0, off = 0, len = 2, cap = 3\<rparr>, closers = cs\<rparr>"

text \<open>
  An interface type, the type of a pointer to it (the type of the expected result
  \<open>(*component.ReleaseManager)(nil)\<close>), a type that implements the interface and one
  that does not.
\<close>

definition demo_interface :: go_type where
  "demo_interface = GoType ''component.ReleaseManager'' Interface [''ReleaseFunc''] None"

definition demo_expected :: go_value where
  "demo_expected = Val (GoType ''*component.ReleaseManager'' Pointer [] (Some demo_interface)) 0"

definition demo_releaser :: go_type where
  "demo_releaser = GoType ''*docker.Releaser'' Pointer [''Config'', ''ReleaseFunc''] None"

definition demo_builder :: go_type where
  "demo_builder = GoType ''*docker.Builder'' Pointer [''BuildFunc'', ''Config''] None"

text \<open>
  A function that returns the value given, one whose call fails, and a \<open>NewFunc\<close> that
  accepts the value 0 (as the function returning a builder) and rejects every other.
\<close>

definition demo_func :: "go_value \<Rightarrow> (nat list) Func" where
  "demo_func v args x = (CallOut v, x)"

definition demo_failing_func :: "(nat list) Func" where
  "demo_failing_func args x = (CallErr (PlainError ''argument cannot be satisfied''), x)"

definition demo_NewFunc :: "nat \<Rightarrow> string list \<Rightarrow> error + (nat list) Func" where
  "demo_NewFunc v log =
     (if v = 0 then Inr (demo_func (Val demo_builder 1))
      else Inl (PlainError ''fn must be a func''))"

definition demo_component :: Component where
  "demo_component = \<lparr>labels = [''tier'' \<mapsto> ''web'']\<rparr>"

text \<open>
  The App of the examples in a project that has a label of its own.
\<close>

definition demo_labelled_app :: "(nat list) App" where
  "demo_labelled_app =
     (demo_app [])\<lparr>project := (demo_project [] ''/srv/proj'')\<lparr>p_labels := [''region'' \<mapsto> ''eu'']\<rparr>\<rparr>"

text \<open>
  A handle that returns \<open>g\<close> of the outside world where the handle \<open>c\<close> returns its own
  error, with the same effect on the outside world.
\<close>

definition returning :: "('x \<Rightarrow> error option) \<Rightarrow> 'x closer \<Rightarrow> 'x closer" where
  "returning g c = c\<lparr>handle_run := (\<lambda>x. (g x, snd (handle_run c x)))\<rparr>"

section \<open>Facts about the shutdown handles\<close>

lemmas demo_defs =
  demo_world_def demo_project_def demo_config_def demo_app_def demo_handle_def
  demo_instance_def demo_startPlugin_def demo_grow_def

lemma invoke_trace: "trace (snd (invoke c w)) = trace w @ [Invoked (handle_id c)]"
  by (simp add: invoke_def split: prod.splits)

lemma invoke_arrays: "arrays (snd (invoke c w)) = arrays w"
  by (simp add: invoke_def split: prod.splits)

lemma run_closers_trace:
  "trace (run_closers cs w) = trace w @ map (\<lambda>c. Invoked (handle_id c)) cs"
  by (induction cs arbitrary: w) (simp_all add: invoke_trace)

lemma run_closers_arrays: "arrays (run_closers cs w) = arrays w"
  by (induction cs arbitrary: w) (simp_all add: invoke_arrays)

lemma invoke_returning: "snd (invoke (returning g c) w) = snd (invoke c w)"
  by (simp add: invoke_def returning_def split: prod.splits)

lemma run_closers_returning:
  "run_closers (map (returning g) cs) w = run_closers cs w"
  by (induction cs arbitrary: w) (simp_all add: invoke_returning)

lemma count_list_invoked:
  "count_list (map (\<lambda>c. Invoked (handle_id c)) cs) (Invoked i) = count_list (map handle_id cs) i"
  by (induction cs) simp_all

lemma count_list_distinct:
  "distinct xs \<Longrightarrow> x \<in> set xs \<Longrightarrow> count_list xs x = 1"
  by (induction xs) (auto simp: count_list_0_iff)

lemmas newApp_eval =
  newApp_def newApp_init_def copy_mappers_def slice_literal_def alloc_def append_slice_def
  slice_content_def initMappers_def load_mapper_def closer_of_def Let_def
  demo_world_def demo_project_def demo_config_def demo_instance_def demo_startPlugin_def
  demo_grow_def

lemmas call_eval =
  callDynamicFunc_def callDynamicFunc_call_def normalize_def build_args_def
  verify_def TypeOf_def Elem_def Implements_def implements_def
  demo_interface_def demo_expected_def demo_releaser_def demo_builder_def demo_func_def
  demo_failing_func_def demo_NewFunc_def demo_component_def demo_world_def

section \<open>Facts about slices and \<open>append\<close>\<close>

lemma write_at_length: "i + length xs \<le> length arr \<Longrightarrow> length (write_at arr i xs) = length arr"
  by (simp add: write_at_def)

lemma write_at_window:
  assumes "k + l + length xs \<le> length arr"
  shows "take (l + length xs) (drop k (write_at arr (k + l) xs)) = take l (drop k arr) @ xs"
proof -
  have "drop k (write_at arr (k + l) xs)
          = take l (drop k arr) @ xs @ drop (k + l + length xs) arr"
    using assms by (simp add: write_at_def drop_take)
  moreover have "length (take l (drop k arr)) = l"
    using assms by simp
  ultimately show ?thesis by simp
qed

lemma slice_content_alloc:
  "slice_content (arrs @ [arr]) s =
     (if base s = length arrs then take (len s) (drop (off s) arr) else slice_content arrs s)"
  by (auto simp: slice_content_def nth_append)

lemma append_slice_wf_content:
  assumes "wf_slice (arrays w) s" and "append_slice grow s xs w = (s', w')"
  shows "wf_slice (arrays w') s' \<and> slice_content (arrays w') s' = slice_content (arrays w) s @ xs"
proof (cases "len s + length xs \<le> cap s")
  case True
  from assms(1) have b: "base s < length (arrays w)"
    and l: "off s + cap s \<le> length (arrays w ! base s)"
    by (simp_all add: wf_slice_def)
  from True l have fit: "off s + len s + length xs \<le> length (arrays w ! base s)" by simp
  from True assms(2) have s': "s' = s\<lparr>len := len s + length xs\<rparr>"
    and w': "arrays w' = (arrays w)[base s := write_at (arrays w ! base s) (off s + len s) xs]"
    by (auto simp: append_slice_def Let_def)
  have "wf_slice (arrays w') s'"
    using b l True fit by (simp add: wf_slice_def s' w' write_at_length)
  moreover have "slice_content (arrays w') s' = slice_content (arrays w) s @ xs"
    using b fit by (simp add: slice_content_def s' w' write_at_window)
  ultimately show ?thesis by simp
next
  case False
  define n where "n = len s + length xs"
  define newcap where "newcap = max n (grow (cap s) n)"
  from False assms(2) have s': "s' = \<lparr>base = length (arrays w), off = 0, len = n, cap = newcap\<rparr>"
    and w': "arrays w' = arrays w @ [slice_content (arrays w) s @ xs @ replicate (newcap - n) None]"
    by (auto simp: append_slice_def Let_def alloc_def n_def newcap_def)
  from assms(1) have len: "length (slice_content (arrays w) s) = len s"
    by (auto simp: wf_slice_def slice_content_def)
  have "wf_slice (arrays w') s'"
    using len by (simp add: wf_slice_def s' w' n_def newcap_def)
  moreover have "slice_content (arrays w') s' = slice_content (arrays w) s @ xs"
    using len by (simp add: slice_content_def s' w' n_def)
  ultimately show ?thesis by simp
qed

lemma append_slice_frame:
  assumes "append_slice grow s xs w = (s', w')"
  shows "length (arrays w) \<le> length (arrays w')"
    and "i < length (arrays w) \<Longrightarrow> i \<noteq> base s \<Longrightarrow> arrays w' ! i = arrays w ! i"
    and "base s' = base s \<or> base s' = length (arrays w)"
    and "outer w' = outer w" and "trace w' = trace w"
  using assms by (auto simp: append_slice_def Let_def alloc_def nth_append split: if_splits)

lemma append_slice_take:
  assumes "append_slice grow s xs w = (s', w')" and "N \<le> base s" and "N \<le> length (arrays w)"
  shows "take N (arrays w') = take N (arrays w) \<and> N \<le> base s' \<and> N \<le> length (arrays w')"
  using assms by (auto simp: append_slice_def Let_def alloc_def split: if_splits)

section \<open>Facts about \<open>initMappers\<close> and \<open>newApp\<close>\<close>

lemma load_mapper_Inl:
  assumes "load_mapper grow sp f name a w = (Inl err, w')"
  shows "arrays w' = arrays w \<and> trace w' = trace w"
  using assms by (auto simp: load_mapper_def Let_def split: prod.splits sum.splits)

lemma load_mapper_Inr:
  assumes "load_mapper grow sp f name a w = (Inr (pinst, a'), w')"
  shows "append_slice grow (mappers a) (Mappers pinst) (w\<lparr>outer := outer w'\<rparr>) = (mappers a', w')
         \<and> closers a' = closers a @ [closer_of pinst]"
  using assms
  by (auto simp: load_mapper_def Let_def append_slice_def alloc_def split: prod.splits sum.splits if_splits)

lemma initMappers_loop_content:
  assumes "initMappers_loop grow sp f names a w = (r, a', w')"
    and "wf_slice (arrays w) (mappers a)"
  shows "wf_slice (arrays w') (mappers a') \<and>
         slice_content (arrays w') (mappers a')
           = slice_content (arrays w) (mappers a) @ exported grow sp f names a w"
  using assms
proof (induction names arbitrary: a w)
  case Nil
  then show ?case by simp
next
  case (Cons name names)
  show ?case
  proof (cases "load_mapper grow sp f name a w")
    case (Pair res w1)
    show ?thesis
    proof (cases res)
      case (Inl err)
      with Pair Cons.prems load_mapper_Inl [of grow sp f name a w err w1]
      show ?thesis by (simp add: wf_slice_def slice_content_def)
    next
      case (Inr pa)
      obtain pinst a1 where pa: "pa = (pinst, a1)" by (cases pa)
      from Pair Inr pa have lm: "load_mapper grow sp f name a w = (Inr (pinst, a1), w1)" by simp
      from load_mapper_Inr [OF lm]
      have ap: "append_slice grow (mappers a) (Mappers pinst) (w\<lparr>outer := outer w1\<rparr>) = (mappers a1, w1)"
        by simp
      from Cons.prems(2) have "wf_slice (arrays (w\<lparr>outer := outer w1\<rparr>)) (mappers a)" by simp
      from append_slice_wf_content [OF this ap]
      have wf1: "wf_slice (arrays w1) (mappers a1)"
        and c1: "slice_content (arrays w1) (mappers a1) = slice_content (arrays w) (mappers a) @ Mappers pinst"
        by simp_all
      from Cons.prems(1) lm have "initMappers_loop grow sp f names a1 w1 = (r, a', w')" by simp
      from Cons.IH [OF this wf1] c1 lm show ?thesis by simp
    qed
  qed
qed

lemma initMappers_loop_frame:
  assumes "initMappers_loop grow sp f names a w = (r, a', w')"
    and "N \<le> base (mappers a)" and "N \<le> length (arrays w)"
  shows "take N (arrays w') = take N (arrays w) \<and> N \<le> base (mappers a') \<and> N \<le> length (arrays w')"
  using assms
proof (induction names arbitrary: a w)
  case Nil
  then show ?case by simp
next
  case (Cons name names)
  show ?case
  proof (cases "load_mapper grow sp f name a w")
    case (Pair res w1)
    show ?thesis
    proof (cases res)
      case (Inl err)
      with Pair Cons.prems load_mapper_Inl [of grow sp f name a w err w1]
      show ?thesis by simp
    next
      case (Inr pa)
      obtain pinst a1 where pa: "pa = (pinst, a1)" by (cases pa)
      from Pair Inr pa have lm: "load_mapper grow sp f name a w = (Inr (pinst, a1), w1)" by simp
      from load_mapper_Inr [OF lm]
      have ap: "append_slice grow (mappers a) (Mappers pinst) (w\<lparr>outer := outer w1\<rparr>) = (mappers a1, w1)"
        by simp
      from append_slice_take [OF ap, of N] Cons.prems(2,3)
      have t1: "take N (arrays w1) = take N (arrays w)" and b1: "N \<le> base (mappers a1)"
        and l1: "N \<le> length (arrays w1)" by simp_all
      from Cons.prems(1) lm have "initMappers_loop grow sp f names a1 w1 = (r, a', w')" by simp
      from Cons.IH [OF this b1 l1] t1 show ?thesis by simp
    qed
  qed
qed

lemma load_mapper_Inr_fields:
  assumes "load_mapper grow sp f name a w = (Inr (pinst, a'), w')"
  shows "trace w' = trace w" and "source a' = source a" and "config a' = config a"
    and "project a' = project a" and "dir a' = dir a" and "ref a' = ref a"
  using assms
  by (auto simp: load_mapper_def Let_def append_slice_def alloc_def split: prod.splits sum.splits if_splits)

lemma initMappers_loop_fields:
  assumes "initMappers_loop grow sp f names a w = (r, a', w')"
  shows "trace w' = trace w \<and> source a' = source a \<and> config a' = config a
         \<and> project a' = project a \<and> dir a' = dir a \<and> ref a' = ref a"
  using assms
proof (induction names arbitrary: a w)
  case Nil
  then show ?case by simp
next
  case (Cons name names)
  show ?case
  proof (cases "load_mapper grow sp f name a w")
    case (Pair res w1)
    show ?thesis
    proof (cases res)
      case (Inl err)
      with Pair Cons.prems load_mapper_Inl [of grow sp f name a w err w1]
      show ?thesis by auto
    next
      case (Inr pa)
      obtain pinst a1 where pa: "pa = (pinst, a1)" by (cases pa)
      from Pair Inr pa have lm: "load_mapper grow sp f name a w = (Inr (pinst, a1), w1)" by simp
      from Cons.prems(1) lm have "initMappers_loop grow sp f names a1 w1 = (r, a', w')" by simp
      from Cons.IH [OF this] load_mapper_Inr_fields [OF lm] show ?thesis by simp
    qed
  qed
qed

lemma copy_mappers_fresh:
  assumes "copy_mappers grow s w = (ms, w')"
  shows "wf_slice (arrays w') ms"
    and "slice_content (arrays w') ms = slice_content (arrays w) s"
    and "length (arrays w) \<le> base ms"
    and "take (length (arrays w)) (arrays w') = arrays w"
    and "trace w' = trace w" and "outer w' = outer w"
proof -
  define w1 where "w1 = w\<lparr>arrays := arrays w @ [[]]\<rparr>"
  define lit where "lit = \<lparr>base = length (arrays w), off = 0, len = 0, cap = 0\<rparr>"
  from assms have ap: "append_slice grow lit (slice_content (arrays w1) s) w1 = (ms, w')"
    by (simp add: copy_mappers_def slice_literal_def alloc_def w1_def lit_def)
  have wf: "wf_slice (arrays w1) lit"
    by (simp add: wf_slice_def w1_def lit_def)
  have c1: "slice_content (arrays w1) s = slice_content (arrays w) s"
    by (auto simp: w1_def slice_content_def nth_append less_Suc_eq)
  from append_slice_wf_content [OF wf ap] c1
  show "wf_slice (arrays w') ms" and "slice_content (arrays w') ms = slice_content (arrays w) s"
    by (simp_all add: slice_content_def w1_def lit_def)
  from append_slice_take [OF ap, of "length (arrays w)"]
  show "length (arrays w) \<le> base ms" and "take (length (arrays w)) (arrays w') = arrays w"
    by (simp_all add: w1_def lit_def)
  from append_slice_frame(4,5) [OF ap]
  show "trace w' = trace w" and "outer w' = outer w"
    by (simp_all add: w1_def)
qed


lemma newApp_init_facts:
  assumes "newApp_init grow p cfg w = (app, w')"
  shows "copy_mappers grow (p_mappers p) w = (mappers app, w')"
    and "Source_Path (source app)
           = (if cfg_Path cfg \<noteq> [] then Join [p_root p, cfg_Path cfg] else p_root p)"
    and "closers app = []"
  using assms by (auto simp: newApp_init_def Let_def split: prod.splits)

lemma initMappers_loop_closers:
  assumes "initMappers_loop grow sp f names a w = (r, a', w')"
    and "\<forall>c \<in> set (closers a). \<forall>x. fst (handle_run c x) = None"
  shows "\<forall>c \<in> set (closers a'). \<forall>x. fst (handle_run c x) = None"
  using assms
proof (induction names arbitrary: a w)
  case Nil
  then show ?case by simp
next
  case (Cons name names)
  show ?case
  proof (cases "load_mapper grow sp f name a w")
    case (Pair res w1)
    show ?thesis
    proof (cases res)
      case (Inl err)
      with Pair Cons.prems show ?thesis by simp
    next
      case (Inr pa)
      obtain pinst a1 where pa: "pa = (pinst, a1)" by (cases pa)
      from Pair Inr pa have lm: "load_mapper grow sp f name a w = (Inr (pinst, a1), w1)" by simp
      from load_mapper_Inr [OF lm] Cons.prems(2)
      have c1: "\<forall>c \<in> set (closers a1). \<forall>x. fst (handle_run c x) = None"
        by (simp add: closer_of_def)
      from Cons.prems(1) lm have "initMappers_loop grow sp f names a1 w1 = (r, a', w')" by simp
      from Cons.IH [OF this c1] show ?thesis .
    qed
  qed
qed

lemma newApp_Inr_inv:
  assumes "newApp grow sp p cfg w = (Inr app, w')"
  shows "\<exists>app0 w0 d. newApp_init grow p cfg w = (app0, w0) \<and> p_dir p (cfg_Name cfg) = Inr d \<and>
           ((p_factories p MapperType = None \<and> app = app0\<lparr>dir := Some d\<rparr> \<and> w' = w0) \<or>
            (\<exists>f. p_factories p MapperType = Some f \<and>
                 initMappers_loop grow sp f (Registered f) (app0\<lparr>dir := Some d\<rparr>) w0
                   = (None, app, w')))"
  using assms
  by (auto simp: newApp_def initMappers_def split: prod.splits sum.splits option.splits)

lemma newApp_Inr_facts:
  assumes "newApp grow sp p cfg w = (Inr app, w')"
  shows "slice_content (arrays w') (mappers app)
           = slice_content (arrays w) (p_mappers p) @ loaded_converters grow sp p cfg w"
    and "length (arrays w) \<le> base (mappers app)"
    and "take (length (arrays w)) (arrays w') = arrays w"
    and "Source_Path (source app)
           = (if cfg_Path cfg \<noteq> [] then Join [p_root p, cfg_Path cfg] else p_root p)"
    and "\<forall>c \<in> set (closers app). \<forall>x. fst (handle_run c x) = None"
proof -
  from newApp_Inr_inv [OF assms] obtain app0 w0 d where
    i: "newApp_init grow p cfg w = (app0, w0)" and d: "p_dir p (cfg_Name cfg) = Inr d" and
    r: "(p_factories p MapperType = None \<and> app = app0\<lparr>dir := Some d\<rparr> \<and> w' = w0) \<or>
        (\<exists>f. p_factories p MapperType = Some f \<and>
             initMappers_loop grow sp f (Registered f) (app0\<lparr>dir := Some d\<rparr>) w0 = (None, app, w'))"
    by blast
  note cm = newApp_init_facts(1) [OF i]
  note fresh = copy_mappers_fresh [OF cm]
  let ?N = "length (arrays w)"
  have "slice_content (arrays w') (mappers app)
           = slice_content (arrays w) (p_mappers p) @ loaded_converters grow sp p cfg w
        \<and> ?N \<le> base (mappers app) \<and> take ?N (arrays w') = arrays w
        \<and> source app = source app0
        \<and> (\<forall>c \<in> set (closers app). \<forall>x. fst (handle_run c x) = None)"
    using r
  proof
    assume "p_factories p MapperType = None \<and> app = app0\<lparr>dir := Some d\<rparr> \<and> w' = w0"
    with fresh i d newApp_init_facts(3) [OF i] show ?thesis
      by (simp add: loaded_converters_def)
  next
    assume "\<exists>f. p_factories p MapperType = Some f \<and>
             initMappers_loop grow sp f (Registered f) (app0\<lparr>dir := Some d\<rparr>) w0 = (None, app, w')"
    then obtain f where f: "p_factories p MapperType = Some f"
      and l: "initMappers_loop grow sp f (Registered f) (app0\<lparr>dir := Some d\<rparr>) w0 = (None, app, w')"
      by blast
    from fresh(1) have wf0: "wf_slice (arrays w0) (mappers (app0\<lparr>dir := Some d\<rparr>))" by simp
    from fresh(3) have b0: "?N \<le> base (mappers (app0\<lparr>dir := Some d\<rparr>))" by simp
    from fresh(4) have l0: "?N \<le> length (arrays w0)"
      by (metis length_take min.cobounded1)
    from newApp_init_facts(3) [OF i]
    have c0: "\<forall>c \<in> set (closers (app0\<lparr>dir := Some d\<rparr>)). \<forall>x. fst (handle_run c x) = None" by simp
    from initMappers_loop_content [OF l wf0] fresh(2) i d f
    have "slice_content (arrays w') (mappers app)
           = slice_content (arrays w) (p_mappers p) @ loaded_converters grow sp p cfg w"
      by (simp add: loaded_converters_def)
    moreover from initMappers_loop_frame [OF l b0 l0] fresh(4)
    have "?N \<le> base (mappers app)" and "take ?N (arrays w') = arrays w" by simp_all
    moreover from initMappers_loop_fields [OF l] have "source app = source app0" by simp
    moreover note initMappers_loop_closers [OF l c0]
    ultimately show ?thesis by simp
  qed
  with newApp_init_facts(2) [OF i]
  show "slice_content (arrays w') (mappers app)
           = slice_content (arrays w) (p_mappers p) @ loaded_converters grow sp p cfg w"
    and "length (arrays w) \<le> base (mappers app)"
    and "take (length (arrays w)) (arrays w') = arrays w"
    and "Source_Path (source app)
           = (if cfg_Path cfg \<noteq> [] then Join [p_root p, cfg_Path cfg] else p_root p)"
    and "\<forall>c \<in> set (closers app). \<forall>x. fst (handle_run c x) = None"
    by simp_all
qed

lemma loaded_converters_none:
  assumes "p_factories p MapperType = None \<or>
           (\<exists>f. p_factories p MapperType = Some f \<and> Registered f = [])"
  shows "loaded_converters grow sp p cfg w = []"
  using assms
  by (auto simp: loaded_converters_def split: prod.splits sum.splits option.splits)

lemma initMappers_loop_count:
  assumes "initMappers_loop grow sp f names a w = (None, a', w')"
  shows "length (closers a') = length (closers a) + length names"
  using assms
proof (induction names arbitrary: a w)
  case Nil
  then show ?case by simp
next
  case (Cons name names)
  show ?case
  proof (cases "load_mapper grow sp f name a w")
    case (Pair res w1)
    show ?thesis
    proof (cases res)
      case (Inl err)
      with Pair Cons.prems show ?thesis by simp
    next
      case (Inr pa)
      obtain pinst a1 where pa: "pa = (pinst, a1)" by (cases pa)
      from Pair Inr pa have lm: "load_mapper grow sp f name a w = (Inr (pinst, a1), w1)" by simp
      from Cons.prems lm have "initMappers_loop grow sp f names a1 w1 = (None, a', w')" by simp
      from Cons.IH [OF this] load_mapper_Inr [OF lm] show ?thesis by simp
    qed
  qed
qed

section \<open>Facts about \<open>Clean\<close> and \<open>Join\<close>\<close>

lemma split_sep_not_Nil: "split_sep p \<noteq> []"
  by (induction p) auto

lemma split_sep_no_sep: "e \<in> set (split_sep p) \<Longrightarrow> CHR ''/'' \<notin> set e"
proof (induction p arbitrary: e)
  case Nil
  then show ?case by simp
next
  case (Cons c cs)
  show ?case
  proof (cases "c = CHR ''/''")
    case True
    with Cons show ?thesis by auto
  next
    case False
    from split_sep_not_Nil [of cs] obtain x xs where x: "split_sep cs = x # xs"
      by (cases "split_sep cs") auto
    with Cons False show ?thesis by auto
  qed
qed

lemma split_sep_single: "CHR ''/'' \<notin> set e \<Longrightarrow> split_sep e = [e]"
  by (induction e) auto

lemma split_sep_append:
  "CHR ''/'' \<notin> set e \<Longrightarrow> split_sep (e @ CHR ''/'' # rest) = e # split_sep rest"
  by (induction e) auto

lemma split_join:
  "es \<noteq> [] \<Longrightarrow> \<forall>e \<in> set es. CHR ''/'' \<notin> set e \<Longrightarrow> split_sep (join_sep es) = es"
proof (induction es rule: join_sep.induct)
  case 1
  then show ?case by simp
next
  case (2 e)
  then show ?case by (simp add: split_sep_single)
next
  case (3 e v va)
  then show ?case by (simp add: split_sep_append)
qed

lemma clean_elems_real:
  "\<forall>e \<in> set rs. real_elem e \<Longrightarrow> clean_elems rooted out rs = out @ rs"
  by (induction rs arbitrary: out) (auto simp: real_elem_def)

lemma clean_elems_dotdots:
  "clean_elems False (replicate j ''..'') (replicate k ''..'' @ rs)
     = clean_elems False (replicate (j + k) ''..'') rs"
proof (induction k arbitrary: j)
  case 0
  then show ?case by simp
next
  case (Suc k)
  have "replicate j ''..'' @ [''..''] = replicate (Suc j) ''..''"
    by (simp add: replicate_append_same)
  with Suc [of "Suc j"] show ?case by (cases j) auto
qed

lemma clean_elems_shape:
  assumes "\<forall>e \<in> set es. CHR ''/'' \<notin> set e" and "\<forall>e \<in> set rs. real_elem e" and "rooted \<longrightarrow> k = 0"
  shows "\<exists>k' rs'. clean_elems rooted (replicate k ''..'' @ rs) es = replicate k' ''..'' @ rs'
           \<and> (\<forall>e \<in> set rs'. real_elem e) \<and> (rooted \<longrightarrow> k' = 0)"
  using assms
proof (induction es arbitrary: k rs)
  case Nil
  then show ?case by auto
next
  case (Cons e es)
  from Cons.prems(1) have es: "\<forall>e \<in> set es. CHR ''/'' \<notin> set e" and e: "CHR ''/'' \<notin> set e"
    by simp_all
  let ?out = "replicate k ''..'' @ rs"
  consider (skip) "e = [] \<or> e = ''.''" | (dd) "e = ''..''" | (elem) "real_elem e"
    using e by (auto simp: real_elem_def)
  then show ?case
  proof cases
    case skip
    with Cons.IH [OF es Cons.prems(2,3)] show ?thesis by auto
  next
    case elem
    then have "clean_elems rooted ?out (e # es) = clean_elems rooted (replicate k ''..'' @ (rs @ [e])) es"
      by (auto simp: real_elem_def)
    moreover from elem Cons.prems(2) have "\<forall>x \<in> set (rs @ [e]). real_elem x" by simp
    from Cons.IH [OF es this Cons.prems(3)]
    have "\<exists>k' rs'. clean_elems rooted (replicate k ''..'' @ (rs @ [e])) es = replicate k' ''..'' @ rs'
           \<and> (\<forall>e \<in> set rs'. real_elem e) \<and> (rooted \<longrightarrow> k' = 0)" .
    ultimately show ?thesis by simp
  next
    case dd
    show ?thesis
    proof (cases "rs = []")
      case False
      with Cons.prems(2) have "last ?out \<noteq> ''..''" by (auto simp: real_elem_def)
      with False dd have "clean_elems rooted ?out (e # es)
          = clean_elems rooted (replicate k ''..'' @ butlast rs) es"
        by (simp add: butlast_append)
      moreover from Cons.prems(2) have "\<forall>x \<in> set (butlast rs). real_elem x"
        by (meson in_set_butlastD)
      from Cons.IH [OF es this Cons.prems(3)]
      have "\<exists>k' rs'. clean_elems rooted (replicate k ''..'' @ butlast rs) es = replicate k' ''..'' @ rs'
           \<and> (\<forall>e \<in> set rs'. real_elem e) \<and> (rooted \<longrightarrow> k' = 0)" .
      ultimately show ?thesis by simp
    next
      case True
      show ?thesis
      proof (cases rooted)
        case True
        with Cons.prems(3) \<open>rs = []\<close> dd
        have "clean_elems rooted ?out (e # es) = clean_elems rooted (replicate 0 ''..'' @ []) es"
          by simp
        moreover from Cons.IH [OF es, of "[]" 0]
        have "\<exists>k' rs'. clean_elems rooted (replicate 0 ''..'' @ []) es = replicate k' ''..'' @ rs'
           \<and> (\<forall>e \<in> set rs'. real_elem e) \<and> (rooted \<longrightarrow> k' = 0)" by simp
        ultimately show ?thesis by simp
      next
        case False
        have "replicate k ''..'' @ [''..''] = replicate (Suc k) ''..''"
          by (simp add: replicate_append_same)
        with False \<open>rs = []\<close> dd
        have "clean_elems rooted ?out (e # es) = clean_elems rooted (replicate (Suc k) ''..'' @ []) es"
          by (cases k) auto
        moreover from Cons.IH [OF es, of "[]" "Suc k"] False
        have "\<exists>k' rs'. clean_elems rooted (replicate (Suc k) ''..'' @ []) es = replicate k' ''..'' @ rs'
           \<and> (\<forall>e \<in> set rs'. real_elem e) \<and> (rooted \<longrightarrow> k' = 0)" by simp
        ultimately show ?thesis by simp
      qed
    qed
  qed
qed

lemma Clean_dot: "Clean ''.'' = ''.''"
  by (simp add: Clean_def)

lemma join_sep_hd:
  assumes "es \<noteq> []" and "\<forall>e \<in> set es. e \<noteq> []"
  shows "join_sep es \<noteq> [] \<and> hd (join_sep es) = hd (hd es)"
  using assms by (induction es rule: join_sep.induct) auto

lemma Clean_rooted_fixed:
  assumes "\<forall>e \<in> set rs. real_elem e"
  shows "Clean (CHR ''/'' # join_sep rs) = CHR ''/'' # join_sep rs"
proof (cases "rs = []")
  case True
  then show ?thesis by (simp add: Clean_def)
next
  case False
  from assms have "\<forall>e \<in> set rs. CHR ''/'' \<notin> set e" by (simp add: real_elem_def)
  from split_join [OF False this] assms show ?thesis
    by (simp add: Clean_def clean_elems_real)
qed

lemma Clean_relative_fixed:
  assumes ne: "out \<noteq> []"
    and el: "\<forall>e \<in> set out. e \<noteq> [] \<and> CHR ''/'' \<notin> set e"
    and fp: "clean_elems False [] out = out"
  shows "Clean (join_sep out) = join_sep out"
proof -
  from el have e1: "\<forall>e \<in> set out. e \<noteq> []" and e2: "\<forall>e \<in> set out. CHR ''/'' \<notin> set e"
    by blast+
  from join_sep_hd [OF ne e1] have j: "join_sep out \<noteq> []"
    and h: "hd (join_sep out) = hd (hd out)" by blast+
  from ne have "hd out \<in> set out" by (rule hd_in_set)
  with el have "hd out \<noteq> []" and "CHR ''/'' \<notin> set (hd out)" by blast+
  then have "hd (hd out) \<noteq> CHR ''/''" by (cases "hd out") auto
  with h have nr: "\<not> hd (join_sep out) = CHR ''/''" by simp
  note sj = split_join [OF ne e2]
  show ?thesis
    using j nr ne sj fp by (simp add: Clean_def)
qed

lemma dotdots_elems:
  assumes "\<forall>e \<in> set rs. real_elem e"
  shows "\<forall>e \<in> set (replicate k ''..'' @ rs). e \<noteq> [] \<and> CHR ''/'' \<notin> set e"
proof
  fix e assume "e \<in> set (replicate k ''..'' @ rs)"
  then have "e = ''..'' \<or> e \<in> set rs" by (auto split: if_splits)
  then show "e \<noteq> [] \<and> CHR ''/'' \<notin> set e"
  proof
    assume "e = ''..''" then show ?thesis by simp
  next
    assume "e \<in> set rs" with assms show ?thesis by (simp add: real_elem_def)
  qed
qed

lemma dotdots_fixed:
  assumes "\<forall>e \<in> set rs. real_elem e"
  shows "clean_elems False [] (replicate k ''..'' @ rs) = replicate k ''..'' @ rs"
proof -
  have "clean_elems False [] (replicate k ''..'' @ rs) = clean_elems False (replicate k ''..'') rs"
    using clean_elems_dotdots [of 0 k rs] by simp
  with assms show ?thesis by (simp only: clean_elems_real)
qed

lemma Clean_idem: "Clean (Clean path) = Clean path"
proof (cases "path = []")
  case True
  then show ?thesis by (simp add: Clean_def)
next
  case False
  let ?rooted = "hd path = CHR ''/''"
  from clean_elems_shape [of "split_sep path" "[]" ?rooted 0] split_sep_no_sep
  obtain k rs where o: "clean_elems ?rooted [] (split_sep path) = replicate k ''..'' @ rs"
    and r: "\<forall>e \<in> set rs. real_elem e" and z: "?rooted \<longrightarrow> k = 0"
    by auto
  show ?thesis
  proof (cases ?rooted)
    case True
    with False o z have "Clean path = CHR ''/'' # join_sep rs" by (simp add: Clean_def)
    with Clean_rooted_fixed [OF r] show ?thesis by simp
  next
    case nr: False
    show ?thesis
    proof (cases "replicate k ''..'' @ rs = []")
      case True
      with False nr o have "Clean path = ''.''" by (simp add: Clean_def)
      with Clean_dot show ?thesis by simp
    next
      case ne: False
      with False nr o have "Clean path = join_sep (replicate k ''..'' @ rs)"
        by (simp add: Clean_def)
      with Clean_relative_fixed [OF ne dotdots_elems [OF r] dotdots_fixed [OF r]]
      show ?thesis by simp
    qed
  qed
qed

lemma IsAbs_Clean: "IsAbs path \<Longrightarrow> IsAbs (Clean path)"
  by (simp add: IsAbs_def Clean_def Let_def)

lemma Join_two:
  "Join [root, path] = (if root = [] then (if path = [] then [] else Clean path)
                        else Clean (root @ CHR ''/'' # path))"
  by simp

lemma IsAbs_Join: "IsAbs root \<Longrightarrow> IsAbs (Join [root, path])"
  using IsAbs_Clean [of "root @ CHR ''/'' # path"] by (simp add: IsAbs_def)

lemma Clean_Join: "path \<noteq> [] \<Longrightarrow> Clean (Join [root, path]) = Join [root, path]"
  by (simp add: Clean_idem)

section \<open>Facts about \<open>callDynamicFunc\<close>\<close>

lemma callDynamicFunc_call_frame:
  "trace (snd (callDynamicFunc_call a ctx log result c rawFunc args w)) = trace w \<and>
   arrays (snd (callDynamicFunc_call a ctx log result c rawFunc args w)) = arrays w"
  by (simp add: callDynamicFunc_call_def Let_def split: option.splits prod.splits call_result.splits)

lemma callDynamicFunc_arrays:
  "arrays (snd (callDynamicFunc NewFunc a ctx log result c f args w)) = arrays w"
proof (cases "normalize NewFunc log f")
  case (Inl err)
  then show ?thesis by (simp add: callDynamicFunc_def)
next
  case (Inr rawFunc)
  obtain res w2 where c: "callDynamicFunc_call a ctx log result c rawFunc args
      (w\<lparr>trace := trace w @ [StatusOpened]\<rparr>) = (res, w2)"
    by (cases "callDynamicFunc_call a ctx log result c rawFunc args (w\<lparr>trace := trace w @ [StatusOpened]\<rparr>)")
  from callDynamicFunc_call_frame [of a ctx log result c rawFunc args "w\<lparr>trace := trace w @ [StatusOpened]\<rparr>"] c
  have "arrays w2 = arrays w" by simp
  with Inr c show ?thesis by (simp add: callDynamicFunc_def)
qed

section \<open>Facts about label merging\<close>

lemma foldl_map_add_dom: "dom (foldl (++) m ls) = dom m \<union> (\<Union>x \<in> set ls. dom x)"
  by (induction ls arbitrary: m) auto

lemma foldl_map_add_none:
  "\<forall>x \<in> set ls. x k = None \<Longrightarrow> foldl (++) m ls k = m k"
  by (induction ls arbitrary: m) (simp_all add: map_add_def)

lemma foldl_map_add_rightmost:
  assumes "m' k = Some v" and "\<forall>x \<in> set ls2. x k = None"
  shows "foldl (++) m (ls1 @ m' # ls2) k = Some v"
  using assms by (simp add: foldl_map_add_none map_add_def)

section \<open>The properties of the specification\<close>

text \<open>
  C1. The spec has: when a mapper plugin fails to start, \<open>newApp\<close> fails with that error,
  returns no App, and the shutdown handle of every plugin already started has been
  invoked. The first two hold; the third does not. With the plugins \<open>first\<close> and
  \<open>broken\<close> registered, \<open>first\<close> starts (instance 1) and \<open>broken\<close> fails: \<open>initMappers\<close>
  returns the error at once, \<open>newApp\<close> returns \<open>nil, err\<close>, and the App that held the
  handle of instance 1 is dropped. No handle has been invoked (the trace is empty) and
  instance 1 still runs.
\<close>

theorem newApp_leaks_started_plugin:
  "fst (newApp demo_grow demo_startPlugin (demo_project [''first'', ''broken''] ''/srv/proj'')
          (demo_config []) demo_world) = Inl (PlainError ''plugin failed to start'') \<and>
   outer (snd (newApp demo_grow demo_startPlugin (demo_project [''first'', ''broken''] ''/srv/proj'')
          (demo_config []) demo_world)) = [1] \<and>
   trace (snd (newApp demo_grow demo_startPlugin (demo_project [''first'', ''broken''] ''/srv/proj'')
          (demo_config []) demo_world)) = []"
  by (simp add: newApp_eval)

text \<open>
  C2, as stated, fails: \<open>Close\<close> does not empty or mark \<open>a.closers\<close>, so a second call
  runs the loop over the same handles. On an App with the one handle 1, the first call
  invokes it once and the second call invokes it again.
\<close>

theorem Close_second_call_reinvokes:
  "trace (snd (Close (demo_app [demo_handle 1]) demo_world)) = [Invoked 1] \<and>
   trace (snd (Close (demo_app [demo_handle 1])
                 (snd (Close (demo_app [demo_handle 1]) demo_world))))
     = [Invoked 1, Invoked 1]"
  by (simp add: Close_def invoke_def demo_defs)

text \<open>
  C2, amended. Every call of \<open>Close\<close> invokes every handle of the App once, in the
  order of \<open>a.closers\<close>, and returns \<open>nil\<close>; the handles stay in the App, so a second call
  invokes each of them once more. With handles of distinct identities, each handle has
  been invoked exactly once after the first call and exactly twice after the second.
\<close>

theorem Close_invokes_every_handle_each_call:
  "trace (snd (Close a w)) = trace w @ map (\<lambda>c. Invoked (handle_id c)) (closers a) \<and>
   trace (snd (Close a (snd (Close a w))))
     = trace w @ map (\<lambda>c. Invoked (handle_id c)) (closers a)
         @ map (\<lambda>c. Invoked (handle_id c)) (closers a) \<and>
   fst (Close a w) = None \<and> fst (Close a (snd (Close a w))) = None \<and>
   (distinct (map handle_id (closers a)) \<longrightarrow>
      (\<forall>c \<in> set (closers a).
         count_list (drop (length (trace w)) (trace (snd (Close a w))))
           (Invoked (handle_id c)) = 1 \<and>
         count_list (drop (length (trace w)) (trace (snd (Close a (snd (Close a w))))))
           (Invoked (handle_id c)) = 2))"
  by (simp add: Close_def run_closers_trace count_list_invoked count_list_distinct)

text \<open>
  C2 amended, at an App with the handles 1 and 2.
\<close>

theorem Close_invokes_every_handle_each_call_witness:
  "distinct (map handle_id (closers (demo_app [demo_handle 1, demo_handle 2]))) \<and>
   demo_handle 2 \<in> set (closers (demo_app [demo_handle 1, demo_handle 2])) \<and>
   trace (snd (Close (demo_app [demo_handle 1, demo_handle 2]) demo_world))
     = [Invoked 1, Invoked 2] \<and>
   count_list (trace (snd (Close (demo_app [demo_handle 1, demo_handle 2])
       (snd (Close (demo_app [demo_handle 1, demo_handle 2]) demo_world))))) (Invoked 2) = 2"
  using Close_invokes_every_handle_each_call
          [of "demo_app [demo_handle 1, demo_handle 2]" demo_world]
  by (simp add: demo_defs)

text \<open>
  C3. The spec has: with an expected result that is not \<open>nil\<close>, a produced value that
  does not implement the expected interface makes the call fail with an error of code
  \<open>FailedPrecondition\<close>, and one that does is returned unchanged. The code does so for
  every produced value that has a dynamic type (\<open>callDynamicFunc_checks_result\<close>
  below), and misses the value \<open>nil\<close>: \<open>reflect.TypeOf(raw)\<close> is then the \<open>nil\<close> type, the
  call of \<open>Implements\<close> on it panics, and \<open>callDynamicFunc\<close> returns no error. With the
  expected result \<open>(*component.ReleaseManager)(nil)\<close> and a function whose call
  succeeds and produces \<open>nil\<close>, the call panics; the status has been opened and closed.
\<close>

theorem callDynamicFunc_nil_result_panics:
  "fst (callDynamicFunc demo_NewFunc (demo_app []) 0 [] demo_expected (Some demo_component)
          (IsFunc (demo_func Nil)) [] demo_world)
     = Panic ''invalid memory address or nil pointer dereference'' \<and>
   trace (snd (callDynamicFunc demo_NewFunc (demo_app []) 0 [] demo_expected (Some demo_component)
          (IsFunc (demo_func Nil)) [] demo_world))
     = [StatusOpened, StatusClosed]"
  by (simp add: call_eval)

text \<open>
  C4. What \<open>callDynamicFunc\<close> adds to the trace is, when the function is made a
  \<open>*argmapper.Func\<close>, exactly the opening of the status followed by its \<open>Close\<close>, once,
  whatever happens in between: the call succeeds, the call fails (to resolve its
  arguments, or in the function itself: both are the error of the call's result), the
  result is rejected, or the body panics. When \<open>NewFunc\<close> rejects the function, the
  \<open>defer\<close> statement is not reached: no status is opened and none is closed.
\<close>

theorem callDynamicFunc_closes_status:
  "trace (snd (callDynamicFunc NewFunc a ctx log result c f args w))
     = trace w @ (case normalize NewFunc log f of
                    Inl err \<Rightarrow> []
                  | Inr rawFunc \<Rightarrow> [StatusOpened, StatusClosed])"
proof (cases "normalize NewFunc log f")
  case (Inl err)
  then show ?thesis by (simp add: callDynamicFunc_def)
next
  case (Inr rawFunc)
  let ?w1 = "w\<lparr>trace := trace w @ [StatusOpened]\<rparr>"
  obtain res w2 where c: "callDynamicFunc_call a ctx log result c rawFunc args ?w1 = (res, w2)"
    by (cases "callDynamicFunc_call a ctx log result c rawFunc args ?w1")
  from callDynamicFunc_call_frame [of a ctx log result c rawFunc args ?w1] c
  have "trace w2 = trace w @ [StatusOpened]" by simp
  with Inr c show ?thesis by (simp add: callDynamicFunc_def)
qed

text \<open>
  C4, at a call that succeeds, a call whose function fails, a call with a \<open>nil\<close>
  component (which panics), and a function that \<open>NewFunc\<close> rejects.
\<close>

theorem callDynamicFunc_closes_status_witness:
  "fst (callDynamicFunc demo_NewFunc (demo_app []) 0 [] Nil (Some demo_component)
          (IsFunc (demo_func (Val demo_releaser 1))) [] demo_world)
     = Returned (Inr (Val demo_releaser 1)) \<and>
   trace (snd (callDynamicFunc demo_NewFunc (demo_app []) 0 [] Nil (Some demo_component)
          (IsFunc (demo_func (Val demo_releaser 1))) [] demo_world))
     = [StatusOpened, StatusClosed] \<and>
   fst (callDynamicFunc demo_NewFunc (demo_app []) 0 [] Nil (Some demo_component)
          (IsFunc demo_failing_func) [] demo_world)
     = Returned (Inl (PlainError ''argument cannot be satisfied'')) \<and>
   trace (snd (callDynamicFunc demo_NewFunc (demo_app []) 0 [] Nil (Some demo_component)
          (IsFunc demo_failing_func) [] demo_world))
     = [StatusOpened, StatusClosed] \<and>
   fst (callDynamicFunc demo_NewFunc (demo_app []) 0 [] Nil None
          (IsFunc demo_failing_func) [] demo_world)
     = Panic ''invalid memory address or nil pointer dereference'' \<and>
   trace (snd (callDynamicFunc demo_NewFunc (demo_app []) 0 [] Nil None
          (IsFunc demo_failing_func) [] demo_world))
     = [StatusOpened, StatusClosed] \<and>
   trace (snd (callDynamicFunc demo_NewFunc (demo_app []) 0 [] Nil (Some demo_component)
          (Plain 1) [] demo_world)) = []"
  using callDynamicFunc_closes_status [of demo_NewFunc "demo_app []" 0 "[]" Nil
          "Some demo_component" "IsFunc (demo_func (Val demo_releaser 1))" "[]" demo_world]
        callDynamicFunc_closes_status [of demo_NewFunc "demo_app []" 0 "[]" Nil
          "Some demo_component" "IsFunc demo_failing_func" "[]" demo_world]
        callDynamicFunc_closes_status [of demo_NewFunc "demo_app []" 0 "[]" Nil
          None "IsFunc demo_failing_func" "[]" demo_world]
        callDynamicFunc_closes_status [of demo_NewFunc "demo_app []" 0 "[]" Nil
          "Some demo_component" "Plain 1" "[]" demo_world]
  by (simp add: call_eval)

text \<open>
  C5, as stated, fails against the merge of the spec, under which the project-wide
  defaults lie below the App's own labels: in a project with the label \<open>region\<close>, the
  merge with no override has the key \<open>region\<close>, which the App's labels do not have.
\<close>

theorem mergeLabels_without_override_keeps_project_labels:
  "mergeLabels demo_labelled_app [] ''region'' = Some ''eu'' \<and>
   cfg_Labels (config demo_labelled_app) ''region'' = None \<and>
   mergeLabels demo_labelled_app [] \<noteq> cfg_Labels (config demo_labelled_app)"
proof -
  have a: "mergeLabels demo_labelled_app [] ''region'' = Some ''eu''"
    by (simp add: mergeLabels_def Project_mergeLabels_def demo_labelled_app_def demo_app_def
          demo_config_def demo_project_def map_add_def)
  have b: "cfg_Labels (config demo_labelled_app) ''region'' = None"
    by (simp add: demo_labelled_app_def demo_app_def demo_config_def)
  from a b have "mergeLabels demo_labelled_app [] \<noteq> cfg_Labels (config demo_labelled_app)"
    by (metis option.distinct(1))
  with a b show ?thesis by simp
qed

text \<open>
  C5, amended. \<open>App.mergeLabels\<close> puts the App's own labels above the project-wide
  defaults and below the sets of the caller, which are applied left to right: a key
  takes the value of the rightmost set that has it, and the value below the caller's
  sets when none has it; no key is dropped (the keys of the result are those of all the
  layers). With no override the result is the project's defaults overwritten by the
  App's labels, which is the App's labels when the project has none. An override with
  a key \<open>k\<close> sets \<open>k\<close> and leaves every other key as it was.
\<close>

theorem mergeLabels_precedence:
  "mergeLabels a ls = foldl (++) (p_labels (project a) ++ cfg_Labels (config a)) ls \<and>
   mergeLabels a (ls @ [m]) = mergeLabels a ls ++ m \<and>
   (m k = Some v \<and> (\<forall>m' \<in> set ls2. m' k = None) \<longrightarrow>
      mergeLabels a (ls1 @ m # ls2) k = Some v) \<and>
   ((\<forall>m' \<in> set ls. m' k = None) \<longrightarrow>
      mergeLabels a ls k = (p_labels (project a) ++ cfg_Labels (config a)) k) \<and>
   dom (mergeLabels a ls)
     = dom (p_labels (project a)) \<union> dom (cfg_Labels (config a)) \<union> (\<Union>m' \<in> set ls. dom m') \<and>
   mergeLabels a [] = p_labels (project a) ++ cfg_Labels (config a) \<and>
   (p_labels (project a) = Map.empty \<longrightarrow> mergeLabels a [] = cfg_Labels (config a)) \<and>
   mergeLabels a (ls @ [[k \<mapsto> v]]) = (mergeLabels a ls)(k \<mapsto> v)"
  by (simp add: mergeLabels_def Project_mergeLabels_def foldl_map_add_dom foldl_map_add_none
        foldl_map_add_rightmost Un_commute)

text \<open>
  C5 amended, at the labels \<open>env = staging\<close>, \<open>team = infra\<close>: overridden by
  \<open>env = prod\<close>, with no override, with a new key, and in a project with a label.
\<close>

theorem mergeLabels_precedence_witness:
  "p_labels (project (demo_app [])) = Map.empty \<and>
   mergeLabels (demo_app []) [[''env'' \<mapsto> ''prod'']]
     = [''env'' \<mapsto> ''prod'', ''team'' \<mapsto> ''infra''] \<and>
   mergeLabels (demo_app []) [] = [''env'' \<mapsto> ''staging'', ''team'' \<mapsto> ''infra''] \<and>
   mergeLabels (demo_app []) [[''tier'' \<mapsto> ''web'']]
     = [''env'' \<mapsto> ''staging'', ''team'' \<mapsto> ''infra'', ''tier'' \<mapsto> ''web''] \<and>
   mergeLabels demo_labelled_app [[''env'' \<mapsto> ''prod'']]
     = [''region'' \<mapsto> ''eu'', ''env'' \<mapsto> ''prod'', ''team'' \<mapsto> ''infra'']"
proof -
  have e: "p_labels (project (demo_app [])) = Map.empty"
    "cfg_Labels (config (demo_app [])) = [''env'' \<mapsto> ''staging'', ''team'' \<mapsto> ''infra'']"
    "p_labels (project demo_labelled_app) = [''region'' \<mapsto> ''eu'']"
    "cfg_Labels (config demo_labelled_app) = [''env'' \<mapsto> ''staging'', ''team'' \<mapsto> ''infra'']"
    by (simp_all add: demo_labelled_app_def demo_app_def demo_project_def demo_config_def)
  have m: "[''env'' \<mapsto> ''staging'', ''team'' \<mapsto> ''infra''] ++ [''env'' \<mapsto> ''prod'']
             = [''env'' \<mapsto> ''prod'', ''team'' \<mapsto> ''infra'']"
    "[''region'' \<mapsto> ''eu''] ++ [''env'' \<mapsto> ''staging'', ''team'' \<mapsto> ''infra''] ++ [''env'' \<mapsto> ''prod'']
             = [''region'' \<mapsto> ''eu'', ''env'' \<mapsto> ''prod'', ''team'' \<mapsto> ''infra'']"
    by (auto simp: fun_eq_iff map_add_def)
  from mergeLabels_precedence [of "demo_app []" "[]" "[''env'' \<mapsto> ''prod'']" "''env''" "''prod''" "[]" "[]"]
       mergeLabels_precedence [of "demo_app []" "[]" "[''tier'' \<mapsto> ''web'']" "''tier''" "''web''" "[]" "[]"]
       mergeLabels_precedence [of demo_labelled_app "[]" "[''env'' \<mapsto> ''prod'']" "''env''" "''prod''" "[]" "[]"]
       e m
  show ?thesis by simp
qed

text \<open>
  C6. For every App \<open>newApp\<close> returns: its chain holds the elements of the project's
  chain followed by the converters the loaded mapper plugins export, in order, and so
  the elements of the project's chain alone when there is no factory for mappers or no
  plugin is registered; its backing array was allocated by \<open>newApp\<close> (its address is
  beyond the store \<open>newApp\<close> started with), every array of that store is as it was,
  and the project's chain with it; the chain \<open>newApp\<close> starts with already has the
  elements of the project's chain; and \<open>Close\<close> and \<open>callDynamicFunc\<close>, which are given
  the App and return none, leave the store of arrays as it is.
\<close>

theorem newApp_converter_chain:
  assumes "newApp grow sp p cfg w = (Inr app, w')"
  shows "slice_content (arrays w') (mappers app)
           = slice_content (arrays w) (p_mappers p) @ loaded_converters grow sp p cfg w \<and>
         (p_factories p MapperType = None \<or>
          (\<exists>f. p_factories p MapperType = Some f \<and> Registered f = []) \<longrightarrow>
            slice_content (arrays w') (mappers app) = slice_content (arrays w) (p_mappers p)) \<and>
         length (arrays w) \<le> base (mappers app) \<and>
         take (length (arrays w)) (arrays w') = arrays w \<and>
         (base (p_mappers p) < length (arrays w) \<longrightarrow>
            slice_content (arrays w') (p_mappers p) = slice_content (arrays w) (p_mappers p)) \<and>
         slice_content (arrays (snd (newApp_init grow p cfg w)))
             (mappers (fst (newApp_init grow p cfg w)))
           = slice_content (arrays w) (p_mappers p) \<and>
         (\<forall>v. arrays (snd (Close app v)) = arrays v) \<and>
         (\<forall>NewFunc ctx log result c f args v.
            arrays (snd (callDynamicFunc NewFunc app ctx log result c f args v)) = arrays v)"
proof -
  note f = newApp_Inr_facts [OF assms]
  have "slice_content (arrays w') (p_mappers p) = slice_content (arrays w) (p_mappers p)"
    if b: "base (p_mappers p) < length (arrays w)"
  proof -
    from f(3) b have "arrays w' ! base (p_mappers p) = arrays w ! base (p_mappers p)"
      by (metis nth_take)
    moreover from f(3) b have "base (p_mappers p) < length (arrays w')"
      by (metis length_take min_less_iff_conj)
    ultimately show ?thesis using b by (simp add: slice_content_def)
  qed
  moreover have "slice_content (arrays (snd (newApp_init grow p cfg w)))
             (mappers (fst (newApp_init grow p cfg w)))
           = slice_content (arrays w) (p_mappers p)"
    using copy_mappers_fresh(2) [OF newApp_init_facts(1), of grow p cfg w
            "fst (newApp_init grow p cfg w)" "snd (newApp_init grow p cfg w)"]
    by simp
  ultimately show ?thesis using f(1,2,3)
    by (simp add: loaded_converters_none Close_def run_closers_arrays callDynamicFunc_arrays)
qed

text \<open>
  C6, at a project whose chain has two elements in an array of capacity three, with two
  plugins that export one and two converters, and with no plugin.
\<close>

theorem newApp_converter_chain_witness:
  "map_option (\<lambda>a. slice_content
       (arrays (snd (newApp demo_grow demo_startPlugin
          (demo_project [''first'', ''second''] ''/srv/proj'') (demo_config []) demo_world)))
       (mappers a))
     (app_of (newApp demo_grow demo_startPlugin
        (demo_project [''first'', ''second''] ''/srv/proj'') (demo_config []) demo_world))
     = Some [Some 1, Some 2, Some 10, Some 20, Some 21] \<and>
   arrays (snd (newApp demo_grow demo_startPlugin
        (demo_project [''first'', ''second''] ''/srv/proj'') (demo_config []) demo_world)) ! 0
     = [Some 1, Some 2, None] \<and>
   map_option (\<lambda>a. slice_content
       (arrays (snd (newApp demo_grow demo_startPlugin
          (demo_project [] ''/srv/proj'') (demo_config []) demo_world)))
       (mappers a))
     (app_of (newApp demo_grow demo_startPlugin
        (demo_project [] ''/srv/proj'') (demo_config []) demo_world))
     = Some [Some 1, Some 2]"
proof -
  let ?p = "demo_project [''first'', ''second''] ''/srv/proj''"
  let ?q = "demo_project [] ''/srv/proj''"
  obtain app w' where r: "newApp demo_grow demo_startPlugin ?p (demo_config []) demo_world = (Inr app, w')"
    by (simp add: newApp_eval)
  obtain app2 w2 where r2: "newApp demo_grow demo_startPlugin ?q (demo_config []) demo_world = (Inr app2, w2)"
    by (simp add: newApp_eval)
  have l: "loaded_converters demo_grow demo_startPlugin ?p (demo_config []) demo_world
             = [Some 10, Some 20, Some 21]"
    by (simp add: loaded_converters_def newApp_eval)
  have c: "slice_content (arrays demo_world) (p_mappers ?p) = [Some 1, Some 2]"
    "slice_content (arrays demo_world) (p_mappers ?q) = [Some 1, Some 2]"
    "p_factories ?q MapperType = Some \<lparr>Registered = []\<rparr>"
    "length (arrays demo_world) = 1"
    by (simp_all add: slice_content_def demo_world_def demo_project_def)
  from newApp_converter_chain [OF r] l c
  have a1: "slice_content (arrays w') (mappers app) = [Some 1, Some 2, Some 10, Some 20, Some 21]"
    and t: "take 1 (arrays w') = arrays demo_world"
    by auto
  have "arrays w' ! 0 = take 1 (arrays w') ! 0" by simp
  with t have a2: "arrays w' ! 0 = [Some 1, Some 2, None]"
    by (simp add: demo_world_def)
  from newApp_converter_chain [OF r2] c
  have a3: "slice_content (arrays w2) (mappers app2) = [Some 1, Some 2]"
    by auto
  from a1 a2 a3 r r2 show ?thesis
    by (simp add: app_of_def)
qed

text \<open>
  C7. \<open>App.Close\<close> returns \<open>nil\<close> for every App and every world. What the handles
  return has no part in it: with each handle made to return anything else (the function
  \<open>g\<close> of the outside world) while acting on the outside world as before, \<open>Close\<close>
  leaves the same world, trace included, so the errors are neither propagated nor kept
  nor recorded. The handle \<open>initMappers\<close> registers for a plugin returns \<open>nil\<close> itself,
  after the plugin's \<open>Close\<close>.
\<close>

theorem Close_returns_nil:
  "fst (Close a w) = None \<and>
   (\<forall>g. snd (Close (a\<lparr>closers := map (returning g) (closers a)\<rparr>) w) = snd (Close a w)) \<and>
   fst (handle_run (closer_of pinst) x) = None"
  by (simp add: Close_def run_closers_returning closer_of_def)

text \<open>
  C7, at an App with two handles that both return an error.
\<close>

theorem Close_returns_nil_witness:
  "fst (handle_run (demo_handle 1) [1]) = Some (PlainError ''close failed'') \<and>
   fst (Close (demo_app [demo_handle 1, demo_handle 2]) demo_world) = None"
  using Close_returns_nil [of "demo_app [demo_handle 1, demo_handle 2]" demo_world
                             "demo_instance 1 []" "[]"]
  by (simp add: demo_handle_def)

text \<open>
  C8. With \<open>nil\<close> for the expected result, when the function is made a
  \<open>*argmapper.Func\<close>, the component is not \<open>nil\<close> and the call produces the value
  \<open>raw\<close>, \<open>callDynamicFunc\<close> returns \<open>raw\<close> and no error, whatever \<open>raw\<close> is (its type is
  not looked at); the status has been opened and closed.
\<close>

theorem callDynamicFunc_nil_expected:
  assumes "normalize NewFunc log f = Inr rawFunc" and "c = Some component"
    and "rawFunc (build_args a ctx log component args (arrays w)) (outer w) = (CallOut raw, x')"
  shows "callDynamicFunc NewFunc a ctx log Nil c f args w
           = (Returned (Inr raw),
              w\<lparr>outer := x', trace := trace w @ [StatusOpened, StatusClosed]\<rparr>)"
  using assms by (simp add: callDynamicFunc_def callDynamicFunc_call_def split: prod.splits)

text \<open>
  C8, at a plain function value that \<open>NewFunc\<close> accepts and that returns a builder.
\<close>

theorem callDynamicFunc_nil_expected_witness:
  "normalize demo_NewFunc [] (Plain 0) = Inr (demo_func (Val demo_builder 1)) \<and>
   demo_func (Val demo_builder 1)
     (build_args (demo_app []) 0 [] demo_component [] (arrays demo_world)) (outer demo_world)
     = (CallOut (Val demo_builder 1), []) \<and>
   fst (callDynamicFunc demo_NewFunc (demo_app []) 0 [] Nil (Some demo_component) (Plain 0) []
          demo_world) = Returned (Inr (Val demo_builder 1))"
proof -
  have n: "normalize demo_NewFunc [] (Plain 0) = Inr (demo_func (Val demo_builder 1))"
    by (simp add: normalize_def demo_NewFunc_def)
  have r: "demo_func (Val demo_builder 1)
     (build_args (demo_app []) 0 [] demo_component [] (arrays demo_world)) (outer demo_world)
     = (CallOut (Val demo_builder 1), [])"
    by (simp add: demo_func_def demo_world_def)
  from callDynamicFunc_nil_expected [OF n refl r] n r show ?thesis by simp
qed

text \<open>
  C9, as stated, fails: \<open>newApp\<close> takes the project root as it is. With the root
  \<open>proj//src\<close> and no configured path, the path of the source is \<open>proj//src\<close>, which is
  neither absolute nor clean.
\<close>

theorem newApp_relative_root:
  "map_option (Source_Path \<circ> source)
     (app_of (newApp demo_grow demo_startPlugin (demo_project [] ''proj//src'') (demo_config [])
        demo_world)) = Some ''proj//src'' \<and>
   \<not> IsAbs ''proj//src'' \<and> Clean ''proj//src'' \<noteq> ''proj//src''"
  by (simp add: newApp_eval app_of_def IsAbs_def Clean_def)

text \<open>
  C9, amended. For every App \<open>newApp\<close> returns, the path of the source is the project
  root when the configured path is empty and \<open>filepath.Join\<close> of the root and the
  configured path otherwise; it is absolute when the root is, and clean when the
  configured path is not empty or the root is clean.
\<close>

theorem newApp_source_path:
  assumes "newApp grow sp p cfg w = (Inr app, w')"
  shows "Source_Path (source app)
           = (if cfg_Path cfg = [] then p_root p else Join [p_root p, cfg_Path cfg]) \<and>
         (IsAbs (p_root p) \<longrightarrow> IsAbs (Source_Path (source app))) \<and>
         (cfg_Path cfg \<noteq> [] \<or> Clean (p_root p) = p_root p \<longrightarrow>
            Clean (Source_Path (source app)) = Source_Path (source app))"
proof -
  from newApp_Inr_facts(4) [OF assms]
  have "Source_Path (source app)
          = (if cfg_Path cfg = [] then p_root p else Join [p_root p, cfg_Path cfg])"
    by simp
  then show ?thesis
    using IsAbs_Join [of "p_root p" "cfg_Path cfg"] Clean_Join [of "cfg_Path cfg" "p_root p"]
    by auto
qed

text \<open>
  C9 amended, at the root \<open>/srv/proj\<close> and the configured path \<open>sub/../x/\<close>.
\<close>

theorem newApp_source_path_witness:
  "IsAbs ''/srv/proj'' \<and>
   map_option (Source_Path \<circ> source)
     (app_of (newApp demo_grow demo_startPlugin (demo_project [''first''] ''/srv/proj'')
        (demo_config ''sub/../x/'') demo_world)) = Some ''/srv/proj/x'' \<and>
   Join [''/srv/proj'', ''sub/../x/''] = ''/srv/proj/x'' \<and>
   IsAbs ''/srv/proj/x'' \<and> Clean ''/srv/proj/x'' = ''/srv/proj/x''"
proof -
  let ?p = "demo_project [''first''] ''/srv/proj''"
  obtain app w' where r: "newApp demo_grow demo_startPlugin ?p (demo_config ''sub/../x/'') demo_world = (Inr app, w')"
    by (simp add: newApp_eval)
  have j: "Join [''/srv/proj'', ''sub/../x/''] = ''/srv/proj/x''"
    by (simp add: Clean_def)
  have c: "p_root ?p = ''/srv/proj''" "cfg_Path (demo_config ''sub/../x/'') = ''sub/../x/''"
    by (simp_all add: demo_project_def demo_config_def)
  have a: "IsAbs ''/srv/proj''" by (simp add: IsAbs_def)
  from newApp_source_path [OF r] c j a
  have "Source_Path (source app) = ''/srv/proj/x''" and "IsAbs ''/srv/proj/x''"
    and "Clean ''/srv/proj/x'' = ''/srv/proj/x''"
    by auto
  with r j a show ?thesis by (simp add: app_of_def)
qed

text \<open>
  C10, as stated, fails: the component is read after the function has been made a
  \<open>*argmapper.Func\<close>. With a value that \<open>NewFunc\<close> rejects and a \<open>nil\<close> component,
  \<open>callDynamicFunc\<close> returns the error of \<open>NewFunc\<close> and does not panic.
\<close>

theorem callDynamicFunc_nil_component_returns_error:
  "fst (callDynamicFunc demo_NewFunc (demo_app []) 0 [] Nil None (Plain 1) [] demo_world)
     = Returned (Inl (PlainError ''fn must be a func''))"
  by (simp add: callDynamicFunc_def normalize_def demo_NewFunc_def)

text \<open>
  C10, amended. With a \<open>nil\<close> component, \<open>callDynamicFunc\<close> returns the error of
  \<open>NewFunc\<close> when \<open>NewFunc\<close> rejects the function, leaving the world as it was; in
  every other case it panics on \<open>c.labels\<close>, before the function is called: the outside
  world is as it was, and the status has been opened and closed.
\<close>

theorem callDynamicFunc_nil_component:
  "callDynamicFunc NewFunc a ctx log result None f args w
     = (case normalize NewFunc log f of
          Inl err \<Rightarrow> (Returned (Inl err), w)
        | Inr rawFunc \<Rightarrow>
            (Panic ''invalid memory address or nil pointer dereference'',
             w\<lparr>trace := trace w @ [StatusOpened, StatusClosed]\<rparr>))"
  by (simp add: callDynamicFunc_def callDynamicFunc_call_def split: sum.splits)

text \<open>
  C10 amended, at a plain function value that \<open>NewFunc\<close> accepts and at a
  \<open>*argmapper.Func\<close>.
\<close>

theorem callDynamicFunc_nil_component_witness:
  "fst (callDynamicFunc demo_NewFunc (demo_app []) 0 [] Nil None (Plain 0) [] demo_world)
     = Panic ''invalid memory address or nil pointer dereference'' \<and>
   fst (callDynamicFunc demo_NewFunc (demo_app []) 0 [] Nil None
          (IsFunc (demo_func (Val demo_releaser 1))) [] demo_world)
     = Panic ''invalid memory address or nil pointer dereference''"
  using callDynamicFunc_nil_component [of demo_NewFunc "demo_app []" 0 "[]" Nil "Plain 0" "[]" demo_world]
        callDynamicFunc_nil_component [of demo_NewFunc "demo_app []" 0 "[]" Nil
          "IsFunc (demo_func (Val demo_releaser 1))" "[]" demo_world]
  by (simp add: normalize_def demo_NewFunc_def)

section \<open>Further properties\<close>

text \<open>
  \<open>newApp\<close> invokes no shutdown handle and opens no status, on any input and whether
  it succeeds or fails: it leaves the trace as it found it.
\<close>

theorem newApp_invokes_no_handle: "trace (snd (newApp grow sp p cfg w)) = trace w"
proof (cases "newApp_init grow p cfg w")
  case (Pair app w1)
  from copy_mappers_fresh(5) [OF newApp_init_facts(1) [OF Pair]] have t1: "trace w1 = trace w" .
  show ?thesis
  proof (cases "p_dir p (cfg_Name cfg)")
    case (Inl err)
    with Pair t1 show ?thesis by (simp add: newApp_def)
  next
    case (Inr d)
    show ?thesis
    proof (cases "p_factories p MapperType")
      case None
      with Pair Inr t1 show ?thesis by (simp add: newApp_def)
    next
      case (Some f)
      obtain r a' w2 where im: "initMappers_loop grow sp f (Registered f) (app\<lparr>dir := Some d\<rparr>) w1 = (r, a', w2)"
        by (cases "initMappers_loop grow sp f (Registered f) (app\<lparr>dir := Some d\<rparr>) w1") auto
      from initMappers_loop_fields [OF im] t1 have "trace w2 = trace w" by simp
      with Pair Inr Some im show ?thesis
        by (cases r) (simp_all add: newApp_def initMappers_def)
    qed
  qed
qed

text \<open>
  When the call fails, \<open>callDynamicFunc\<close> returns the error of the call, unchanged,
  whatever the expected result is.
\<close>

theorem callDynamicFunc_call_error:
  assumes "normalize NewFunc log f = Inr rawFunc" and "c = Some component"
    and "rawFunc (build_args a ctx log component args (arrays w)) (outer w) = (CallErr err, x')"
  shows "callDynamicFunc NewFunc a ctx log result c f args w
           = (Returned (Inl err),
              w\<lparr>outer := x', trace := trace w @ [StatusOpened, StatusClosed]\<rparr>)"
  using assms by (simp add: callDynamicFunc_def callDynamicFunc_call_def split: prod.splits)

theorem callDynamicFunc_call_error_witness:
  "fst (callDynamicFunc demo_NewFunc (demo_app []) 0 [] demo_expected (Some demo_component)
          (IsFunc demo_failing_func) [] demo_world)
     = Returned (Inl (PlainError ''argument cannot be satisfied''))"
proof -
  have n: "normalize demo_NewFunc [] (IsFunc demo_failing_func) = Inr demo_failing_func"
    by (simp add: normalize_def)
  have r: "demo_failing_func
     (build_args (demo_app []) 0 [] demo_component [] (arrays demo_world)) (outer demo_world)
     = (CallErr (PlainError ''argument cannot be satisfied''), [])"
    by (simp add: demo_failing_func_def demo_world_def)
  from callDynamicFunc_call_error [OF n refl r, of "demo_expected"] show ?thesis by simp
qed

text \<open>
  When the data directory of the App cannot be set up, \<open>newApp\<close> returns that error
  and starts no plugin: the outside world is as it was.
\<close>

theorem newApp_dir_error:
  assumes "p_dir p (cfg_Name cfg) = Inl err"
  shows "fst (newApp grow sp p cfg w) = Inl err \<and> outer (snd (newApp grow sp p cfg w)) = outer w"
proof (cases "newApp_init grow p cfg w")
  case (Pair app w1)
  from copy_mappers_fresh(6) [OF newApp_init_facts(1) [OF Pair]] have "outer w1 = outer w" .
  with Pair assms show ?thesis by (simp add: newApp_def)
qed

theorem newApp_dir_error_witness:
  "p_dir demo_project_no_dir (cfg_Name (demo_config [])) = Inl (PlainError ''mkdir failed'') \<and>
   fst (newApp demo_grow demo_startPlugin demo_project_no_dir (demo_config []) demo_world)
     = Inl (PlainError ''mkdir failed'') \<and>
   outer (snd (newApp demo_grow demo_startPlugin demo_project_no_dir (demo_config []) demo_world))
     = []"
proof -
  have d: "p_dir demo_project_no_dir (cfg_Name (demo_config [])) = Inl (PlainError ''mkdir failed'')"
    by (simp add: demo_project_no_dir_def demo_project_def)
  from newApp_dir_error [OF d, of demo_grow demo_startPlugin demo_world] d
  show ?thesis by (simp add: demo_world_def)
qed

text \<open>
  An App that \<open>newApp\<close> returns has one shutdown handle for each registered mapper
  plugin, and none when the project has no factory for mappers.
\<close>

theorem newApp_one_handle_per_plugin:
  assumes "newApp grow sp p cfg w = (Inr app, w')"
  shows "length (closers app)
           = (case p_factories p MapperType of None \<Rightarrow> 0 | Some f \<Rightarrow> length (Registered f))"
proof -
  from newApp_Inr_inv [OF assms] obtain app0 w0 d where
    i: "newApp_init grow p cfg w = (app0, w0)" and
    r: "(p_factories p MapperType = None \<and> app = app0\<lparr>dir := Some d\<rparr> \<and> w' = w0) \<or>
        (\<exists>f. p_factories p MapperType = Some f \<and>
             initMappers_loop grow sp f (Registered f) (app0\<lparr>dir := Some d\<rparr>) w0 = (None, app, w'))"
    by blast
  from r show ?thesis
  proof
    assume "p_factories p MapperType = None \<and> app = app0\<lparr>dir := Some d\<rparr> \<and> w' = w0"
    with newApp_init_facts(3) [OF i] show ?thesis by simp
  next
    assume "\<exists>f. p_factories p MapperType = Some f \<and>
             initMappers_loop grow sp f (Registered f) (app0\<lparr>dir := Some d\<rparr>) w0 = (None, app, w')"
    then obtain f where f: "p_factories p MapperType = Some f"
      and l: "initMappers_loop grow sp f (Registered f) (app0\<lparr>dir := Some d\<rparr>) w0 = (None, app, w')"
      by blast
    from initMappers_loop_count [OF l] newApp_init_facts(3) [OF i] f show ?thesis by simp
  qed
qed

theorem newApp_one_handle_per_plugin_witness:
  "map_option (map handle_id \<circ> closers)
     (app_of (newApp demo_grow demo_startPlugin
        (demo_project [''first'', ''second''] ''/srv/proj'') (demo_config []) demo_world))
     = Some [1, 2]"
proof -
  let ?p = "demo_project [''first'', ''second''] ''/srv/proj''"
  obtain app w' where r: "newApp demo_grow demo_startPlugin ?p (demo_config []) demo_world = (Inr app, w')"
    by (simp add: newApp_eval)
  have "map handle_id (closers app) = [1, 2]"
    using r by (auto simp: newApp_eval)
  with newApp_one_handle_per_plugin [OF r] r show ?thesis by (simp add: app_of_def)
qed

text \<open>
  The check of the result on a value that has a dynamic type. When the function is
  made a \<open>*argmapper.Func\<close>, the component is not \<open>nil\<close>, the call produces a value of
  dynamic type \<open>rawType\<close>, and the expected result is a value whose type is a pointer to
  the interface type \<open>interfaceType\<close> (as \<open>(*component.ReleaseManager)(nil)\<close> is): if
  \<open>rawType\<close> implements the interface \<open>callDynamicFunc\<close> returns the value produced,
  unchanged, and no error; if not it returns the error of code \<open>FailedPrecondition\<close>
  whose message holds the name of the interface type and the name of \<open>rawType\<close>.
\<close>

theorem callDynamicFunc_checks_result:
  assumes "normalize NewFunc log f = Inr rawFunc" and "c = Some component"
    and "rawFunc (build_args a ctx log component args (arrays w)) (outer w)
           = (CallOut (Val rawType v), x')"
    and "result = Val resultType r"
    and "Elem resultType = Returned interfaceType"
    and "type_Kind interfaceType = Interface"
  shows "fst (callDynamicFunc NewFunc a ctx log result c f args w)
           = (if implements rawType interfaceType then Returned (Inr (Val rawType v))
              else Returned (Inl (StatusError FailedPrecondition
                     (''operation expected result type '' @ type_String interfaceType
                        @ '', got '' @ type_String rawType))))"
  using assms
  by (simp add: callDynamicFunc_def callDynamicFunc_call_def verify_def TypeOf_def Implements_def
        split: prod.splits)

text \<open>
  At a function that returns a builder, which does not implement the release manager
  interface, and at one that returns a releaser, which does.
\<close>

theorem callDynamicFunc_checks_result_witness:
  "\<not> implements demo_builder demo_interface \<and>
   fst (callDynamicFunc demo_NewFunc (demo_app []) 0 [] demo_expected (Some demo_component)
          (Plain 0) [] demo_world)
     = Returned (Inl (StatusError FailedPrecondition
         ''operation expected result type component.ReleaseManager, got *docker.Builder'')) \<and>
   implements demo_releaser demo_interface \<and>
   fst (callDynamicFunc demo_NewFunc (demo_app []) 0 [] demo_expected (Some demo_component)
          (IsFunc (demo_func (Val demo_releaser 7))) [] demo_world)
     = Returned (Inr (Val demo_releaser 7))"
proof -
  let ?pt = "GoType ''*component.ReleaseManager'' Pointer [] (Some demo_interface)"
  have n: "normalize demo_NewFunc [] (Plain 0) = Inr (demo_func (Val demo_builder 1))"
    "normalize demo_NewFunc [] (IsFunc (demo_func (Val demo_releaser 7)))
       = Inr (demo_func (Val demo_releaser 7))"
    by (simp_all add: normalize_def demo_NewFunc_def)
  have r: "demo_func (Val demo_builder 1)
     (build_args (demo_app []) 0 [] demo_component [] (arrays demo_world)) (outer demo_world)
     = (CallOut (Val demo_builder 1), [])"
    "demo_func (Val demo_releaser 7)
     (build_args (demo_app []) 0 [] demo_component [] (arrays demo_world)) (outer demo_world)
     = (CallOut (Val demo_releaser 7), [])"
    by (simp_all add: demo_func_def demo_world_def)
  have e: "demo_expected = Val ?pt 0" by (simp add: demo_expected_def)
  have el: "Elem ?pt = Returned demo_interface" by (simp add: Elem_def)
  have k: "type_Kind demo_interface = Interface" by (simp add: demo_interface_def)
  have i: "\<not> implements demo_builder demo_interface" "implements demo_releaser demo_interface"
    by (simp_all add: implements_def demo_builder_def demo_interface_def demo_releaser_def)
  have s: "type_String demo_interface = ''component.ReleaseManager''"
    "type_String demo_builder = ''*docker.Builder''"
    by (simp_all add: demo_interface_def demo_builder_def)
  from callDynamicFunc_checks_result [OF n(1) refl r(1) e el k]
       callDynamicFunc_checks_result [OF n(2) refl r(2) e el k] i s
  show ?thesis by simp
qed

text \<open>
  The check of the result on the value \<open>nil\<close>: with an expected result whose type has
  an element type, every call that produces \<open>nil\<close> panics.
\<close>

theorem callDynamicFunc_nil_result:
  assumes "normalize NewFunc log f = Inr rawFunc" and "c = Some component"
    and "rawFunc (build_args a ctx log component args (arrays w)) (outer w) = (CallOut Nil, x')"
    and "result = Val resultType r"
    and "Elem resultType = Returned interfaceType"
  shows "fst (callDynamicFunc NewFunc a ctx log result c f args w)
           = Panic ''invalid memory address or nil pointer dereference''"
  using assms
  by (simp add: callDynamicFunc_def callDynamicFunc_call_def verify_def TypeOf_def
        split: prod.splits)

theorem callDynamicFunc_nil_result_witness:
  "fst (callDynamicFunc demo_NewFunc (demo_app []) 0 [] demo_expected (Some demo_component)
          (IsFunc (demo_func Nil)) [] demo_world)
     = Panic ''invalid memory address or nil pointer dereference''"
proof -
  let ?pt = "GoType ''*component.ReleaseManager'' Pointer [] (Some demo_interface)"
  have n: "normalize demo_NewFunc [] (IsFunc (demo_func Nil)) = Inr (demo_func Nil)"
    by (simp add: normalize_def)
  have r: "demo_func Nil
     (build_args (demo_app []) 0 [] demo_component [] (arrays demo_world)) (outer demo_world)
     = (CallOut Nil, [])"
    by (simp add: demo_func_def demo_world_def)
  have e: "demo_expected = Val ?pt 0" by (simp add: demo_expected_def)
  have el: "Elem ?pt = Returned demo_interface" by (simp add: Elem_def)
  from callDynamicFunc_nil_result [OF n refl r e el] show ?thesis .
qed

end
